theory Spec2Isabelle
  imports Main "HOL-Library.Word"
begin

section \<open>Errors and JavaScript values\<close>

text \<open>
  Every exception of the source is a value. \<open>TypeError\<close> is what JavaScript raises when a
  property of \<open>null\<close> is read, \<open>RangeError\<close> what it raises when an array is given a
  negative length, \<open>AssertionError\<close> is a failed \<open>assert\<close>, \<open>BadDescriptor\<close> the decoder's
  failure on a malformed descriptor, \<open>Error msg\<close> a JavaScript \<open>Error\<close> with its message
  (also what the file system raises). \<open>InvalidReference\<close> stands for an address that holds
  no array: the source cannot build one, the model rejects it.
\<close>

datatype error =
    BadDescriptor | TypeError | RangeError | AssertionError | InvalidReference | Error string

text \<open>
  The entries of the untyped arrays (\<open>any[]\<close>) the marshaller works on. Reading an array
  out of range gives \<open>Undefined\<close>.
\<close>

datatype jsval = Undefined | Null | Num int | Obj nat

section \<open>Access flags\<close>

text \<open>
  Modelled from the spec: \<open>util.Flags\<close> is not among the sources. The spec describes the
  access flags as a 16-bit bitfield with at least STATIC, NATIVE, ABSTRACT and VARARGS; the
  bit positions are those of the class-file format (0x0008, 0x0100, 0x0400, 0x0080).
\<close>

type_synonym Flags = "16 word"

text \<open>Modelled from the spec: \<open>Flags.isStatic\<close>, the bit STATIC (0x0008).\<close>

definition isStatic :: "Flags \<Rightarrow> bool" where
  "isStatic f = bit f 3"

text \<open>Modelled from the spec: \<open>Flags.isVarArgs\<close>, the bit VARARGS (0x0080).\<close>

definition isVarArgs :: "Flags \<Rightarrow> bool" where
  "isVarArgs f = bit f 7"

text \<open>Modelled from the spec: \<open>Flags.isNative\<close>, the bit NATIVE (0x0100).\<close>

definition isNative :: "Flags \<Rightarrow> bool" where
  "isNative f = bit f 8"

text \<open>Modelled from the spec: \<open>Flags.isAbstract\<close>, the bit ABSTRACT (0x0400).\<close>

definition isAbstract :: "Flags \<Rightarrow> bool" where
  "isAbstract f = bit f 10"

text \<open>
  Modelled from the spec: \<open>Flags.setNative\<close>, which the spec uses to force
  \<open>accessFlags.NATIVE := true\<close>; it writes the bit NATIVE and no other.
\<close>

definition setNative :: "bool \<Rightarrow> Flags \<Rightarrow> Flags" where
  "setNative n f = (if n then set_bit 8 f else unset_bit 8 f)"

section \<open>Descriptor decoder\<close>

text \<open>
  Modelled from the spec: the one-character tokens of a descriptor,
  \<open>B S C I J F D Z V\<close>.
\<close>

definition primitive_chars :: "char list" where
  "primitive_chars = ''BSCIJFDZV''"

text \<open>
  Modelled from the spec: the part of a token \<open>L<name>;\<close> after the \<open>L\<close>, read up to and
  including the first \<open>;\<close>, with the characters that follow it; \<open>None\<close> when there is no
  \<open>;\<close>, so that the token is incomplete.
\<close>

fun read_class_name :: "char list \<Rightarrow> (string \<times> char list) option" where
  "read_class_name [] = None"
| "read_class_name (c # cs) =
     (if c = CHR '';'' then Some ([c], cs)
      else (case read_class_name cs of
              None \<Rightarrow> None
            | Some (nm, rest) \<Rightarrow> Some (c # nm, rest)))"

text \<open>
  Modelled from the spec: \<open>util.carr2descriptor\<close> is not among the sources. It consumes one
  descriptor token from the front of the character array: one character of
  \<open>B S C I J F D Z V\<close>, or \<open>L<name>;\<close> read up to and including the first \<open>;\<close>, or \<open>[\<close>
  followed by another token. It fails with \<open>BadDescriptor\<close> when the token is incomplete or
  starts with an unknown character. On the empty array it returns \<open>null\<close> (\<open>None\<close>), which
  is what ends the loop of \<open>parse_descriptor\<close>. The result carries the rest of the array,
  which the source consumes in place.
\<close>

fun carr2descriptor :: "char list \<Rightarrow> error + (string option \<times> char list)" where
  "carr2descriptor [] = Inr (None, [])"
| "carr2descriptor (c # cs) =
     (if c \<in> set primitive_chars then Inr (Some [c], cs)
      else if c = CHR ''L'' then
        (case read_class_name cs of
           None \<Rightarrow> Inl BadDescriptor
         | Some (nm, rest) \<Rightarrow> Inr (Some (c # nm), rest))
      else if c = CHR ''['' then
        (case carr2descriptor cs of
           Inl e \<Rightarrow> Inl e
         | Inr (None, rest) \<Rightarrow> Inl BadDescriptor
         | Inr (Some t, rest) \<Rightarrow> Inr (Some (c # t), rest))
      else Inl BadDescriptor)"

lemma read_class_name_shorter:
  "read_class_name cs = Some (nm, rest) \<Longrightarrow> length rest < length cs"
  by (induction cs arbitrary: nm rest) (auto split: if_splits option.splits)

lemma carr2descriptor_shorter:
  "carr2descriptor cs = Inr (Some t, rest) \<Longrightarrow> length rest < length cs"
proof (induction cs arbitrary: t rest)
  case Nil
  then show ?case by simp
next
  case (Cons c cs)
  then show ?case
    by (fastforce split: if_splits option.splits sum.splits dest: read_class_name_shorter)
qed

text \<open>
  The loop \<open>while (field = util.carr2descriptor(param_carr)) param_types.push(field)\<close> of
  \<open>Method.parse_descriptor\<close>. An exception of the decoder leaves the loop and the method.
\<close>

function param_loop :: "char list \<Rightarrow> error + string list" where
  "param_loop carr =
     (case carr2descriptor carr of
        Inl e \<Rightarrow> Inl e
      | Inr (None, rest) \<Rightarrow> Inr []
      | Inr (Some field, rest) \<Rightarrow>
          (case param_loop rest of
             Inl e \<Rightarrow> Inl e
           | Inr fields \<Rightarrow> Inr (field # fields)))"
  by pat_completeness auto
termination
  by (relation "measure length") (auto dest: carr2descriptor_shorter)


text \<open>
  The descriptor grammar in the spec's words, to compare the decoder with: a token is one
  character of \<open>B S C I J F D Z V\<close>, or \<open>L<name>;\<close> where the name ends at the first \<open>;\<close>,
  or \<open>[\<close> followed by a token; the parameter region of a well-formed descriptor is a
  sequence of tokens.
\<close>

inductive token :: "string \<Rightarrow> bool" where
  primitive: "c \<in> set primitive_chars \<Longrightarrow> token [c]"
| reference: "CHR '';'' \<notin> set nm \<Longrightarrow> token (CHR ''L'' # nm @ '';'')"
| array: "token t \<Longrightarrow> token (CHR ''['' # t)"

inductive token_sequence :: "string \<Rightarrow> bool" where
  empty: "token_sequence []"
| more: "token t \<Longrightarrow> token_sequence s \<Longrightarrow> token_sequence (t @ s)"

text \<open>
  The regular expression \<open>/\(([^)]*)\)(.*)/\<close> of \<open>Method.parse_descriptor\<close>, applied with
  \<open>exec\<close>: the match starts at the first \<open>(\<close>, the first group runs to the first \<open>)\<close> after
  it, the second group is the rest of that line (\<open>.\<close> matches no line terminator). There is
  no match when no \<open>)\<close> follows the first \<open>(\<close>. Strings are lists of 8-bit characters here,
  so the line terminators are line feed and carriage return.
\<close>

definition line_terminator :: "char \<Rightarrow> bool" where
  "line_terminator c = (c = CHR 0x0A \<or> c = CHR 0x0D)"

definition descriptor_match :: "string \<Rightarrow> (string \<times> string) option" where
  "descriptor_match raw =
     (case dropWhile (\<lambda>c. c \<noteq> CHR ''('') raw of
        [] \<Rightarrow> None
      | _ # after \<Rightarrow>
          (if CHR '')'' \<in> set after
           then Some (takeWhile (\<lambda>c. c \<noteq> CHR '')'') after,
                      takeWhile (\<lambda>c. \<not> line_terminator c)
                        (tl (dropWhile (\<lambda>c. c \<noteq> CHR '')'') after)))
           else None))"

section \<open>Methods\<close>

datatype attribute = Attribute (getName: string) (info: "nat list")

text \<open>The bodies of the table \<open>trapped_methods\<close>, one constructor for each function.\<close>

datatype trap =
    Reference_clinit
  | System_loadLibrary
  | Terminator_setup
  | AtomicInteger_compareAndSet
  | Bits_byteOrder
  | Bits_copyToByteArray
  | Charset3_run

text \<open>
  The functions \<open>Method.parse\<close> can store in \<open>code\<close>: a trap, the closure that looks the
  native method up on its first call (it captures \<open>clsName\<close>, \<open>methSig\<close> and \<open>sig\<close>), and
  the empty function.
\<close>

datatype func = TrapFn trap | NativeBinder string string string | NopFn

text \<open>
  The slot \<open>code\<close>: never assigned, a function, a \<open>Code\<close> attribute, or the \<open>null\<close> that
  \<open>get_attribute\<close> returns when there is no such attribute.
\<close>

datatype code = CodeUndefined | CodeFunction func | CodeAttribute attribute | CodeNull

fun typeof_function :: "code \<Rightarrow> bool" where
  "typeof_function (CodeFunction f) = True"
| "typeof_function c = False"

text \<open>
  A \<open>Method\<close> with the fields of \<open>AbstractMethodField\<close>. Of the owning class only the
  internal name is used here, so \<open>cls\<close> holds \<open>cls.getInternalName()\<close>.
\<close>

record Method =
  cls :: string
  slot :: int
  accessFlags :: Flags
  name :: string
  raw_descriptor :: string
  attrs :: "attribute list"
  param_types :: "string list"
  param_bytes :: nat
  num_args :: nat
  return_type :: string
  code :: code

text \<open>The constructor: \<open>cls\<close> is set and \<open>slot\<close> is \<open>-1\<close>; \<open>parse\<close> fills the rest.\<close>

definition new_Method :: "string \<Rightarrow> Method" where
  "new_Method c = \<lparr>cls = c, slot = - 1, accessFlags = 0, name = [], raw_descriptor = [],
     attrs = [], param_types = [], param_bytes = 0, num_args = 0, return_type = [],
     code = CodeUndefined\<rparr>"

definition trapped_methods :: "(string \<times> (string \<times> func) list) list" where
  "trapped_methods =
     [(''java/lang/ref/Reference'',
         [(''<clinit>()V'', TrapFn Reference_clinit)]),
      (''java/lang/System'',
         [(''loadLibrary(Ljava/lang/String;)V'', TrapFn System_loadLibrary)]),
      (''java/lang/Terminator'',
         [(''setup()V'', TrapFn Terminator_setup)]),
      (''java/util/concurrent/atomic/AtomicInteger'',
         [(''compareAndSet(II)Z'', TrapFn AtomicInteger_compareAndSet)]),
      (''java/nio/Bits'',
         [(''byteOrder()Ljava/nio/ByteOrder;'', TrapFn Bits_byteOrder),
          (''copyToByteArray(JLjava/lang/Object;JJ)V'', TrapFn Bits_copyToByteArray)]),
      (''java/nio/charset/Charset$3'',
         [(''run()Ljava/lang/Object;'', TrapFn Charset3_run)])]"

text \<open>
  Modelled from the spec: \<open>util.descriptor2typestr\<close> is not among the sources. The spec
  keys the trap table by the owner's binary name (\<open>java/lang/System\<close>) and writes the
  internal name of a reference type as \<open>L<binary/name>;\<close>: the conversion strips the leading
  \<open>L\<close> and the trailing \<open>;\<close>. Only a reference type owns a method; any other string is left
  as it is.
\<close>

fun descriptor2typestr :: "string \<Rightarrow> string" where
  "descriptor2typestr [] = []"
| "descriptor2typestr (c # cs) = (if c = CHR ''L'' then butlast cs else c # cs)"

definition getTrappedMethod :: "string \<Rightarrow> string \<Rightarrow> func option" where
  "getTrappedMethod clsName methSig =
     (case map_of trapped_methods (descriptor2typestr clsName) of
        None \<Rightarrow> None
      | Some table \<Rightarrow> map_of table methSig)"

fun get_attribute :: "attribute list \<Rightarrow> string \<Rightarrow> attribute option" where
  "get_attribute [] nm = None"
| "get_attribute (attr # rest) nm =
     (if getName attr = nm then Some attr else get_attribute rest nm)"

text \<open>The first loop of \<open>parse_descriptor\<close>, over \<open>param_types\<close>, from \<open>param_bytes = 0\<close>.\<close>

definition count_param_bytes :: "string list \<Rightarrow> nat" where
  "count_param_bytes pts = fold (\<lambda>p n. n + (if p = ''D'' \<or> p = ''J'' then 2 else 1)) pts 0"

definition parse_descriptor :: "Method \<Rightarrow> string \<Rightarrow> error + Method" where
  "parse_descriptor this raw =
     (case descriptor_match raw of
        None \<Rightarrow> Inl TypeError
      | Some (param_str, return_str) \<Rightarrow>
          (case param_loop param_str of
             Inl e \<Rightarrow> Inl e
           | Inr pts \<Rightarrow>
               Inr (this\<lparr>param_types := pts,
                          param_bytes :=
                            (if \<not> isStatic (accessFlags this)
                             then count_param_bytes pts + 1 else count_param_bytes pts),
                          num_args :=
                            (if \<not> isStatic (accessFlags this)
                             then length pts + 1 else length pts),
                          return_type := return_str\<rparr>)))"

text \<open>
  \<open>AbstractMethodField.parse\<close>. The byte stream, the constant pool and the attribute
  parser are collaborators outside the sources; the model takes what they deliver: the
  16 bits of the access flags, the two UTF-8 constants and the attribute array.
\<close>

definition AbstractMethodField_parse ::
  "Method \<Rightarrow> Flags \<Rightarrow> string \<Rightarrow> string \<Rightarrow> attribute list \<Rightarrow> error + Method" where
  "AbstractMethodField_parse this flags nm desc ats =
     (case parse_descriptor (this\<lparr>accessFlags := flags, name := nm, raw_descriptor := desc\<rparr>) desc of
        Inl e \<Rightarrow> Inl e
      | Inr this' \<Rightarrow> Inr (this'\<lparr>attrs := ats\<rparr>))"

text \<open>
  \<open>full_signature\<close>. \<open>util.ext_classname\<close> is not among the sources and the spec does not
  describe it; it is the parameter \<open>ext_classname\<close>.
\<close>

definition full_signature :: "(string \<Rightarrow> string) \<Rightarrow> Method \<Rightarrow> string" where
  "full_signature ext_classname this =
     ext_classname (cls this) @ ''::'' @ name this @ raw_descriptor this"

text \<open>\<open>String.prototype.indexOf\<close> with a start position: the first index, or \<open>-1\<close>.\<close>

fun find_from :: "string \<Rightarrow> string \<Rightarrow> nat \<Rightarrow> int" where
  "find_from needle [] i = (if needle = [] then int i else - 1)"
| "find_from needle (c # cs) i =
     (if take (length needle) (c # cs) = needle then int i else find_from needle cs (Suc i))"

definition indexOf :: "string \<Rightarrow> string \<Rightarrow> nat \<Rightarrow> int" where
  "indexOf s needle start = find_from needle (drop start s) (min start (length s))"

definition Method_parse ::
  "(string \<Rightarrow> string) \<Rightarrow> Method \<Rightarrow> Flags \<Rightarrow> string \<Rightarrow> string \<Rightarrow> attribute list
     \<Rightarrow> error + Method" where
  "Method_parse ext_classname this0 flags nm desc ats =
     (case AbstractMethodField_parse this0 flags nm desc ats of
        Inl e \<Rightarrow> Inl e
      | Inr this \<Rightarrow>
          (let sig = full_signature ext_classname this;
               clsName = cls this;
               methSig = name this @ raw_descriptor this
           in case getTrappedMethod clsName methSig of
                Some f \<Rightarrow>
                  Inr (this\<lparr>code := CodeFunction f,
                             accessFlags := setNative True (accessFlags this)\<rparr>)
              | None \<Rightarrow>
                  (if isNative (accessFlags this) then
                     (if indexOf sig ''::registerNatives()V'' 1 < 0
                         \<and> indexOf sig ''::initIDs()V'' 1 < 0
                      then Inr (this\<lparr>code := CodeFunction (NativeBinder clsName methSig sig)\<rparr>)
                      else Inr (this\<lparr>code := CodeFunction NopFn\<rparr>))
                   else if \<not> isAbstract (accessFlags this) then
                     Inr (this\<lparr>code := (case get_attribute (attrs this) ''Code'' of
                                          None \<Rightarrow> CodeNull
                                        | Some a \<Rightarrow> CodeAttribute a)\<rparr>)
                   else Inr this)))"

definition getParamWordSize :: "Method \<Rightarrow> nat" where
  "getParamWordSize this = param_bytes this"

definition getNumberOfParameters :: "Method \<Rightarrow> nat" where
  "getNumberOfParameters this = num_args this"

text \<open>The two accessors; \<open>assert\<close> raises when its argument is false.\<close>

definition getCodeAttribute :: "Method \<Rightarrow> error + code" where
  "getCodeAttribute this =
     (if \<not> isNative (accessFlags this) \<and> \<not> isAbstract (accessFlags this)
      then Inr (code this) else Inl AssertionError)"

definition getNativeFunction :: "Method \<Rightarrow> error + code" where
  "getNativeFunction this =
     (if isNative (accessFlags this) \<and> typeof_function (code this)
      then Inr (code this) else Inl AssertionError)"

definition isSignaturePolymorphic :: "Method \<Rightarrow> bool" where
  "isSignaturePolymorphic this =
     (cls this = ''Ljava/lang/invoke/MethodHandle;''
      \<and> isNative (accessFlags this) \<and> isVarArgs (accessFlags this)
      \<and> raw_descriptor this = ''([Ljava/lang/Object;)Ljava/lang/Object;'')"


section \<open>Argument marshaller\<close>

text \<open>
  \<open>convertArgs\<close> and \<open>takeArgs\<close> work on arrays that their callers hold too, so arrays
  live in a store: an address is an index of the store, and a new array goes to the end.
\<close>

type_synonym heap = "jsval list list"

definition alloc :: "heap \<Rightarrow> jsval list \<Rightarrow> nat \<times> heap" where
  "alloc h arr = (length h, h @ [arr])"

definition index_js :: "jsval list \<Rightarrow> nat \<Rightarrow> jsval" where
  "index_js xs i = (if i < length xs then xs ! i else Undefined)"

text \<open>\<open>Array.prototype.slice\<close> with one argument; a negative start counts from the end.\<close>

definition slice :: "jsval list \<Rightarrow> int \<Rightarrow> jsval list" where
  "slice xs start =
     (let len = int (length xs);
          k = (if start < 0 then max (len + start) 0 else min start len)
      in drop (nat k) xs)"

text \<open>The loop of \<open>convertArgs\<close> over \<open>param_types\<close>, with \<open>convertedArgs\<close> and \<open>argIdx\<close>.\<close>

fun convert_loop :: "string list \<Rightarrow> jsval list \<Rightarrow> jsval list \<Rightarrow> nat \<Rightarrow> jsval list" where
  "convert_loop [] params convertedArgs argIdx = convertedArgs"
| "convert_loop (p # ps) params convertedArgs argIdx =
     convert_loop ps params (convertedArgs @ [index_js params argIdx])
       (argIdx + (if p = ''J'' \<or> p = ''D'' then 2 else 1))"

definition convertArgs :: "Method \<Rightarrow> heap \<Rightarrow> jsval \<Rightarrow> nat \<Rightarrow> error + (nat \<times> heap)" where
  "convertArgs this h thread params =
     (if length h \<le> params then Inl InvalidReference
      else if isSignaturePolymorphic this then
        Inr (params, h[params := thread # h ! params])
      else if \<not> isStatic (accessFlags this) then
        Inr (alloc h (convert_loop (param_types this) (h ! params)
                        ([thread] @ [index_js (h ! params) 0]) 1))
      else
        Inr (alloc h (convert_loop (param_types this) (h ! params) [thread] 0)))"

text \<open>
  \<open>takeArgs\<close>: the slice is a new array; assigning a smaller \<open>length\<close> truncates the
  caller's array where it is, assigning a negative one raises \<open>RangeError\<close>.
\<close>

definition takeArgs :: "Method \<Rightarrow> heap \<Rightarrow> nat \<Rightarrow> error + (nat \<times> heap)" where
  "takeArgs this h caller_stack =
     (if length h \<le> caller_stack then Inl InvalidReference
      else
        (let stack = h ! caller_stack;
             start = int (length stack) - int (param_bytes this);
             (params, h') = alloc h (slice stack start);
             new_length = int (length stack) - int (param_bytes this)
         in if new_length < 0 then Inl RangeError
            else Inr (params, h'[caller_stack := take (nat new_length) stack])))"

section \<open>Class bytes provider\<close>

text \<open>
  The file system and \<open>path.normalize\<close> belong to the host, so they are parameters:
  \<open>existsSync\<close> answers for a path, \<open>readFileSync\<close> gives the binary string of a file or
  raises. The two callbacks are parameters too; each of them returns (\<open>None\<close>) or raises
  (\<open>Some e\<close>). What \<open>read_classfile\<close> does is the sequence of its calls.
\<close>

datatype event = ExistsSync string | ReadFileSync string | Cb "nat list" | FailureCb error

text \<open>
  Modelled from the spec: \<open>util.bytestr_to_array\<close> is not among the sources. The spec says
  that the raw byte sequence of the file is delivered: one byte for each character of the
  binary string. The result is an array, so the test \<open>data?\<close> of the source holds.
\<close>

definition bytestr_to_array :: "string \<Rightarrow> nat list" where
  "bytestr_to_array s = map of_char s"

definition class_filename :: "string \<Rightarrow> string \<Rightarrow> string" where
  "class_filename p clsname = p @ ''/'' @ clsname @ ''.class''"

text \<open>
  The loop of \<open>read_classfile\<close> over the classpath. The \<open>try\<close> block holds the call of
  \<open>cb\<close> as well, so an exception of \<open>cb\<close> reaches the \<open>catch\<close> clause. The result is the
  sequence of calls and the exception that leaves \<open>read_classfile\<close>, if any.
\<close>

fun read_loop ::
  "(string \<Rightarrow> bool) \<Rightarrow> (string \<Rightarrow> error + string) \<Rightarrow> (nat list \<Rightarrow> error option)
     \<Rightarrow> (error \<Rightarrow> error option) \<Rightarrow> string \<Rightarrow> string list \<Rightarrow> event list \<times> error option" where
  "read_loop existsSync readFileSync cb failure_cb clsname [] =
     (let e = Error (''Error: No file found for class '' @ clsname @ ''.'')
      in ([FailureCb e], failure_cb e))"
| "read_loop existsSync readFileSync cb failure_cb clsname (p # ps) =
     (let filename = class_filename p clsname in
      if \<not> existsSync filename then
        (let (calls, r) = read_loop existsSync readFileSync cb failure_cb clsname ps
         in (ExistsSync filename # calls, r))
      else
        (case readFileSync filename of
           Inl e \<Rightarrow>
             ([ExistsSync filename, ReadFileSync filename, FailureCb e], failure_cb e)
         | Inr s \<Rightarrow>
             (let data = bytestr_to_array s in
              case cb data of
                None \<Rightarrow> ([ExistsSync filename, ReadFileSync filename, Cb data], None)
              | Some e \<Rightarrow>
                  ([ExistsSync filename, ReadFileSync filename, Cb data, FailureCb e],
                   failure_cb e))))"

definition read_classfile ::
  "string list \<Rightarrow> (string \<Rightarrow> bool) \<Rightarrow> (string \<Rightarrow> error + string) \<Rightarrow> string
     \<Rightarrow> (nat list \<Rightarrow> error option) \<Rightarrow> (error \<Rightarrow> error option) \<Rightarrow> event list \<times> error option" where
  "read_classfile classpath existsSync readFileSync clsname cb failure_cb =
     read_loop existsSync readFileSync cb failure_cb (butlast (tl clsname)) classpath"

text \<open>\<open>String.prototype.split\<close> on \<open>:\<close>; the empty string gives one empty entry.\<close>

fun split_colon :: "string \<Rightarrow> string list" where
  "split_colon [] = [[]]"
| "split_colon (c # cs) =
     (if c = CHR '':'' then [] # split_colon cs
      else (case split_colon cs of
              [] \<Rightarrow> [[c]]
            | x # xs \<Rightarrow> (c # x) # xs))"

definition add_trailing_slash :: "string \<Rightarrow> string" where
  "add_trailing_slash class_path =
     (if class_path = [] \<or> last class_path \<noteq> CHR ''/'' then class_path @ ''/'' else class_path)"

text \<open>The loop of \<open>set_classpath\<close>; the last argument is the new \<open>@classpath\<close>.\<close>

fun classpath_loop ::
  "(string \<Rightarrow> string) \<Rightarrow> (string \<Rightarrow> bool) \<Rightarrow> string list \<Rightarrow> string list \<Rightarrow> string list" where
  "classpath_loop path_normalize existsSync [] result = result"
| "classpath_loop path_normalize existsSync (class_path # rest) result =
     (let class_path' = add_trailing_slash (path_normalize class_path) in
      if existsSync class_path'
      then classpath_loop path_normalize existsSync rest (result @ [class_path'])
      else classpath_loop path_normalize existsSync rest result)"

definition set_classpath ::
  "(string \<Rightarrow> string) \<Rightarrow> (string \<Rightarrow> bool) \<Rightarrow> string \<Rightarrow> string \<Rightarrow> string list" where
  "set_classpath path_normalize existsSync jcl_path classpath =
     classpath_loop path_normalize existsSync (split_colon classpath @ [jcl_path]) []"


text \<open>Which calls of the sequence are calls of one of the two callbacks.\<close>

fun is_callback :: "event \<Rightarrow> bool" where
  "is_callback (Cb data) = True"
| "is_callback (FailureCb e) = True"
| "is_callback (ExistsSync f) = False"
| "is_callback (ReadFileSync f) = False"

text \<open>
  Hosts and callbacks to run the provider on: a file system given by the list of its
  files, each with its content or the error that reading it raises; a set of directories
  given by its list; a callback that returns and one that raises.
\<close>

definition files_existsSync :: "(string \<times> (error + string)) list \<Rightarrow> string \<Rightarrow> bool" where
  "files_existsSync files f = (map_of files f \<noteq> None)"

definition files_readFileSync ::
  "(string \<times> (error + string)) list \<Rightarrow> string \<Rightarrow> error + string" where
  "files_readFileSync files f =
     (case map_of files f of None \<Rightarrow> Inl (Error ''ENOENT'') | Some r \<Rightarrow> r)"

definition dirs_existsSync :: "string list \<Rightarrow> string \<Rightarrow> bool" where
  "dirs_existsSync dirs p = (p \<in> set dirs)"

definition returns :: "'a \<Rightarrow> error option" where
  "returns x = None"

definition raises :: "error \<Rightarrow> 'a \<Rightarrow> error option" where
  "raises e x = Some e"

text \<open>A callback that returns on the bytes \<open>good\<close> and raises on any other.\<close>

definition accepts :: "nat list \<Rightarrow> error \<Rightarrow> nat list \<Rightarrow> error option" where
  "accepts good e data = (if data = good then None else Some e)"

section \<open>Facts about the method model\<close>

lemma setNative_flags:
  "isNative (setNative True f)"
  "isStatic (setNative True f) = isStatic f"
  "isAbstract (setNative True f) = isAbstract f"
  "isVarArgs (setNative True f) = isVarArgs f"
  by (simp_all add: isNative_def isStatic_def isAbstract_def isVarArgs_def setNative_def bit_simps)

lemma fold_param_bytes:
  "fold (\<lambda>p n. n + (if p = ''D'' \<or> p = ''J'' then 2 else 1)) pts k
     = k + (\<Sum>p\<leftarrow>pts. if p = ''J'' \<or> p = ''D'' then 2 else (1::nat))"
  by (induction pts arbitrary: k) auto

lemma count_param_bytes_sum:
  "count_param_bytes pts = (\<Sum>p\<leftarrow>pts. if p = ''J'' \<or> p = ''D'' then 2 else 1)"
  by (simp add: count_param_bytes_def fold_param_bytes)

lemma parse_descriptor_fields:
  assumes "parse_descriptor this raw = Inr m"
  shows "cls m = cls this" "accessFlags m = accessFlags this" "name m = name this"
    "raw_descriptor m = raw_descriptor this" "attrs m = attrs this" "code m = code this"
    "param_bytes m = count_param_bytes (param_types m) + (if isStatic (accessFlags this) then 0 else 1)"
    "num_args m = length (param_types m) + (if isStatic (accessFlags this) then 0 else 1)"
  using assms
  by (auto simp: parse_descriptor_def split: option.splits sum.splits)

lemma AbstractMethodField_parse_fields:
  assumes "AbstractMethodField_parse this flags nm desc ats = Inr m"
  shows "cls m = cls this" "accessFlags m = flags" "name m = nm"
    "raw_descriptor m = desc" "attrs m = ats" "code m = code this"
    "param_bytes m = count_param_bytes (param_types m) + (if isStatic flags then 0 else 1)"
    "num_args m = length (param_types m) + (if isStatic flags then 0 else 1)"
proof -
  from assms obtain m' where
    p: "parse_descriptor (this\<lparr>accessFlags := flags, name := nm, raw_descriptor := desc\<rparr>) desc = Inr m'"
    and m: "m = m'\<lparr>attrs := ats\<rparr>"
    by (auto simp: AbstractMethodField_parse_def split: sum.splits)
  note f = parse_descriptor_fields [OF p]
  show "cls m = cls this" using f(1) m by simp
  show "accessFlags m = flags" using f(2) m by simp
  show "name m = nm" using f(3) m by simp
  show "raw_descriptor m = desc" using f(4) m by simp
  show "attrs m = ats" using m by simp
  show "code m = code this" using f(6) m by simp
  show "param_bytes m = count_param_bytes (param_types m) + (if isStatic flags then 0 else 1)"
    using f(7) m by simp
  show "num_args m = length (param_types m) + (if isStatic flags then 0 else 1)"
    using f(8) m by simp
qed


lemma Method_parse_result:
  assumes "Method_parse ext this0 flags nm desc ats = Inr m"
  shows "\<exists>this. AbstractMethodField_parse this0 flags nm desc ats = Inr this
     \<and> ((\<exists>f. getTrappedMethod (cls this0) (nm @ desc) = Some f
            \<and> m = this\<lparr>code := CodeFunction f, accessFlags := setNative True flags\<rparr>)
       \<or> (getTrappedMethod (cls this0) (nm @ desc) = None \<and> isNative flags
            \<and> (\<exists>f. m = this\<lparr>code := CodeFunction f\<rparr>))
       \<or> (getTrappedMethod (cls this0) (nm @ desc) = None \<and> \<not> isNative flags
            \<and> \<not> isAbstract flags
            \<and> m = this\<lparr>code := (case get_attribute ats ''Code'' of
                                     None \<Rightarrow> CodeNull | Some a \<Rightarrow> CodeAttribute a)\<rparr>)
       \<or> (getTrappedMethod (cls this0) (nm @ desc) = None \<and> \<not> isNative flags
            \<and> isAbstract flags \<and> m = this))"
proof -
  from assms obtain this where a: "AbstractMethodField_parse this0 flags nm desc ats = Inr this"
    by (auto simp: Method_parse_def split: sum.splits)
  note f = AbstractMethodField_parse_fields [OF a]
  from assms a f(1-5) show ?thesis
    by (auto simp: Method_parse_def Let_def split: option.splits if_splits)
qed

lemma Method_parse_flags:
  assumes "Method_parse ext this0 flags nm desc ats = Inr m"
  shows "isStatic (accessFlags m) = isStatic flags"
    and "isAbstract (accessFlags m) = isAbstract flags"
    and "isNative (accessFlags m) = (isNative flags \<or> getTrappedMethod (cls this0) (nm @ desc) \<noteq> None)"
    and "isNative (accessFlags m) \<longrightarrow> typeof_function (code m)"
    and "param_bytes m = count_param_bytes (param_types m) + (if isStatic flags then 0 else 1)"
    and "num_args m = length (param_types m) + (if isStatic flags then 0 else 1)"
proof -
  from Method_parse_result [OF assms] obtain this where
    a: "AbstractMethodField_parse this0 flags nm desc ats = Inr this"
    and d: "(\<exists>f. getTrappedMethod (cls this0) (nm @ desc) = Some f
            \<and> m = this\<lparr>code := CodeFunction f, accessFlags := setNative True flags\<rparr>)
       \<or> (getTrappedMethod (cls this0) (nm @ desc) = None \<and> isNative flags
            \<and> (\<exists>f. m = this\<lparr>code := CodeFunction f\<rparr>))
       \<or> (getTrappedMethod (cls this0) (nm @ desc) = None \<and> \<not> isNative flags
            \<and> \<not> isAbstract flags
            \<and> m = this\<lparr>code := (case get_attribute ats ''Code'' of
                                     None \<Rightarrow> CodeNull | Some a \<Rightarrow> CodeAttribute a)\<rparr>)
       \<or> (getTrappedMethod (cls this0) (nm @ desc) = None \<and> \<not> isNative flags
            \<and> isAbstract flags \<and> m = this)"
    by blast
  note f = AbstractMethodField_parse_fields [OF a]
  show "isStatic (accessFlags m) = isStatic flags"
    using d f(2) by (auto simp: setNative_flags)
  show "isAbstract (accessFlags m) = isAbstract flags"
    using d f(2) by (auto simp: setNative_flags)
  show "isNative (accessFlags m) = (isNative flags \<or> getTrappedMethod (cls this0) (nm @ desc) \<noteq> None)"
    using d f(2) by (auto simp: setNative_flags)
  show "isNative (accessFlags m) \<longrightarrow> typeof_function (code m)"
    using d f(2) by (auto simp: setNative_flags)
  show "param_bytes m = count_param_bytes (param_types m) + (if isStatic flags then 0 else 1)"
    using d f(7) by auto
  show "num_args m = length (param_types m) + (if isStatic flags then 0 else 1)"
    using d f(8) by auto
qed

lemma trapped_methods_distinct:
  "distinct (map fst trapped_methods)"
  "(owner, table) \<in> set trapped_methods \<Longrightarrow> distinct (map fst table)"
  by (auto simp: trapped_methods_def)

text \<open>
  The lookup and the table: a key of the table is found, with the function the table
  gives it, and nothing is found that is not in the table.
\<close>

lemma getTrappedMethod_table:
  assumes "(owner, table) \<in> set trapped_methods" and "(methSig, f) \<in> set table"
  shows "getTrappedMethod (CHR ''L'' # owner @ '';'') methSig = Some f"
proof -
  from assms(1) have "map_of trapped_methods owner = Some table"
    by (simp add: trapped_methods_distinct(1))
  moreover from assms have "map_of table methSig = Some f"
    by (simp add: trapped_methods_distinct(2))
  ultimately show ?thesis
    by (simp add: getTrappedMethod_def)
qed

lemma getTrappedMethod_in_table:
  assumes "getTrappedMethod clsName methSig = Some f"
  shows "\<exists>table. (descriptor2typestr clsName, table) \<in> set trapped_methods
           \<and> (methSig, f) \<in> set table"
  using assms
  by (auto simp: getTrappedMethod_def split: option.splits dest!: map_of_SomeD)

text \<open>
  C1. Take an entry of the table \<open>trapped_methods\<close>: an owner with its table, and in that
  table a signature with its function \<open>f\<close>. A method of the class \<open>L<owner>;\<close> whose
  \<open>name + raw_descriptor\<close> is that signature has, once \<open>Method.parse\<close> has returned, the
  NATIVE flag set and \<open>f\<close> in \<open>code\<close>, and \<open>getNativeFunction\<close> returns \<open>f\<close>.
\<close>

theorem trap_forces_native:
  assumes "Method_parse ext_classname this0 flags nm desc ats = Inr m"
    and "(owner, table) \<in> set trapped_methods"
    and "(nm @ desc, f) \<in> set table"
    and "cls this0 = CHR ''L'' # owner @ '';''"
  shows "getTrappedMethod (cls this0) (nm @ desc) = Some f
           \<and> isNative (accessFlags m) \<and> code m = CodeFunction f
           \<and> getNativeFunction m = Inr (CodeFunction f)"
proof -
  from getTrappedMethod_table [OF assms(2) assms(3)] assms(4)
  have t: "getTrappedMethod (cls this0) (nm @ desc) = Some f"
    by simp
  from Method_parse_result [OF assms(1)] t obtain this where
    "m = this\<lparr>code := CodeFunction f, accessFlags := setNative True flags\<rparr>"
    by auto
  with t show ?thesis
    by (simp add: getNativeFunction_def setNative_flags)
qed

text \<open>The seven entries of the table, each on a method with the flags it has in the library.\<close>

theorem trap_forces_native_witness:
  "(''java/lang/ref/Reference'',
        [(''<clinit>()V'', TrapFn Reference_clinit)]) \<in> set trapped_methods
   \<and> isNative (accessFlags (projr (Method_parse descriptor2typestr (new_Method ''Ljava/lang/ref/Reference;'') 0x0008 ''<clinit>'' ''()V'' [])))
   \<and> getNativeFunction (projr (Method_parse descriptor2typestr (new_Method ''Ljava/lang/ref/Reference;'') 0x0008 ''<clinit>'' ''()V'' []))
       = Inr (CodeFunction (TrapFn Reference_clinit))
   \<and> (''java/lang/System'',
        [(''loadLibrary(Ljava/lang/String;)V'', TrapFn System_loadLibrary)]) \<in> set trapped_methods
   \<and> isNative (accessFlags (projr (Method_parse descriptor2typestr (new_Method ''Ljava/lang/System;'') 0x0009 ''loadLibrary'' ''(Ljava/lang/String;)V'' [])))
   \<and> getNativeFunction (projr (Method_parse descriptor2typestr (new_Method ''Ljava/lang/System;'') 0x0009 ''loadLibrary'' ''(Ljava/lang/String;)V'' []))
       = Inr (CodeFunction (TrapFn System_loadLibrary))
   \<and> (''java/lang/Terminator'',
        [(''setup()V'', TrapFn Terminator_setup)]) \<in> set trapped_methods
   \<and> isNative (accessFlags (projr (Method_parse descriptor2typestr (new_Method ''Ljava/lang/Terminator;'') 0x0008 ''setup'' ''()V'' [])))
   \<and> getNativeFunction (projr (Method_parse descriptor2typestr (new_Method ''Ljava/lang/Terminator;'') 0x0008 ''setup'' ''()V'' []))
       = Inr (CodeFunction (TrapFn Terminator_setup))
   \<and> (''java/util/concurrent/atomic/AtomicInteger'',
        [(''compareAndSet(II)Z'', TrapFn AtomicInteger_compareAndSet)]) \<in> set trapped_methods
   \<and> isNative (accessFlags (projr (Method_parse descriptor2typestr (new_Method ''Ljava/util/concurrent/atomic/AtomicInteger;'') 0x0011 ''compareAndSet'' ''(II)Z'' [])))
   \<and> getNativeFunction (projr (Method_parse descriptor2typestr (new_Method ''Ljava/util/concurrent/atomic/AtomicInteger;'') 0x0011 ''compareAndSet'' ''(II)Z'' []))
       = Inr (CodeFunction (TrapFn AtomicInteger_compareAndSet))
   \<and> (''java/nio/Bits'',
        [(''byteOrder()Ljava/nio/ByteOrder;'', TrapFn Bits_byteOrder),
         (''copyToByteArray(JLjava/lang/Object;JJ)V'', TrapFn Bits_copyToByteArray)]) \<in> set trapped_methods
   \<and> isNative (accessFlags (projr (Method_parse descriptor2typestr (new_Method ''Ljava/nio/Bits;'') 0x0008 ''byteOrder'' ''()Ljava/nio/ByteOrder;'' [])))
   \<and> getNativeFunction (projr (Method_parse descriptor2typestr (new_Method ''Ljava/nio/Bits;'') 0x0008 ''byteOrder'' ''()Ljava/nio/ByteOrder;'' []))
       = Inr (CodeFunction (TrapFn Bits_byteOrder))
   \<and> (''java/nio/Bits'',
        [(''byteOrder()Ljava/nio/ByteOrder;'', TrapFn Bits_byteOrder),
         (''copyToByteArray(JLjava/lang/Object;JJ)V'', TrapFn Bits_copyToByteArray)]) \<in> set trapped_methods
   \<and> isNative (accessFlags (projr (Method_parse descriptor2typestr (new_Method ''Ljava/nio/Bits;'') 0x0108 ''copyToByteArray'' ''(JLjava/lang/Object;JJ)V'' [])))
   \<and> getNativeFunction (projr (Method_parse descriptor2typestr (new_Method ''Ljava/nio/Bits;'') 0x0108 ''copyToByteArray'' ''(JLjava/lang/Object;JJ)V'' []))
       = Inr (CodeFunction (TrapFn Bits_copyToByteArray))
   \<and> (''java/nio/charset/Charset$3'',
        [(''run()Ljava/lang/Object;'', TrapFn Charset3_run)]) \<in> set trapped_methods
   \<and> isNative (accessFlags (projr (Method_parse descriptor2typestr (new_Method ''Ljava/nio/charset/Charset$3;'') 0x0001 ''run'' ''()Ljava/lang/Object;'' [])))
   \<and> getNativeFunction (projr (Method_parse descriptor2typestr (new_Method ''Ljava/nio/charset/Charset$3;'') 0x0001 ''run'' ''()Ljava/lang/Object;'' []))
       = Inr (CodeFunction (TrapFn Charset3_run))"
proof -
  have p1: "Method_parse descriptor2typestr (new_Method ''Ljava/lang/ref/Reference;'') 0x0008 ''<clinit>'' ''()V'' []
      = Inr (projr (Method_parse descriptor2typestr (new_Method ''Ljava/lang/ref/Reference;'') 0x0008 ''<clinit>'' ''()V'' []))"
    by (simp add: Method_parse_def AbstractMethodField_parse_def parse_descriptor_def
        descriptor_match_def line_terminator_def primitive_chars_def count_param_bytes_def
        new_Method_def getTrappedMethod_def trapped_methods_def full_signature_def
        isStatic_def setNative_def)
  have o1: "(''java/lang/ref/Reference'',
        [(''<clinit>()V'', TrapFn Reference_clinit)]) \<in> set trapped_methods"
    by (simp add: trapped_methods_def)
  have p2: "Method_parse descriptor2typestr (new_Method ''Ljava/lang/System;'') 0x0009 ''loadLibrary'' ''(Ljava/lang/String;)V'' []
      = Inr (projr (Method_parse descriptor2typestr (new_Method ''Ljava/lang/System;'') 0x0009 ''loadLibrary'' ''(Ljava/lang/String;)V'' []))"
    by (simp add: Method_parse_def AbstractMethodField_parse_def parse_descriptor_def
        descriptor_match_def line_terminator_def primitive_chars_def count_param_bytes_def
        new_Method_def getTrappedMethod_def trapped_methods_def full_signature_def
        isStatic_def setNative_def)
  have o2: "(''java/lang/System'',
        [(''loadLibrary(Ljava/lang/String;)V'', TrapFn System_loadLibrary)]) \<in> set trapped_methods"
    by (simp add: trapped_methods_def)
  have p3: "Method_parse descriptor2typestr (new_Method ''Ljava/lang/Terminator;'') 0x0008 ''setup'' ''()V'' []
      = Inr (projr (Method_parse descriptor2typestr (new_Method ''Ljava/lang/Terminator;'') 0x0008 ''setup'' ''()V'' []))"
    by (simp add: Method_parse_def AbstractMethodField_parse_def parse_descriptor_def
        descriptor_match_def line_terminator_def primitive_chars_def count_param_bytes_def
        new_Method_def getTrappedMethod_def trapped_methods_def full_signature_def
        isStatic_def setNative_def)
  have o3: "(''java/lang/Terminator'',
        [(''setup()V'', TrapFn Terminator_setup)]) \<in> set trapped_methods"
    by (simp add: trapped_methods_def)
  have p4: "Method_parse descriptor2typestr (new_Method ''Ljava/util/concurrent/atomic/AtomicInteger;'') 0x0011 ''compareAndSet'' ''(II)Z'' []
      = Inr (projr (Method_parse descriptor2typestr (new_Method ''Ljava/util/concurrent/atomic/AtomicInteger;'') 0x0011 ''compareAndSet'' ''(II)Z'' []))"
    by (simp add: Method_parse_def AbstractMethodField_parse_def parse_descriptor_def
        descriptor_match_def line_terminator_def primitive_chars_def count_param_bytes_def
        new_Method_def getTrappedMethod_def trapped_methods_def full_signature_def
        isStatic_def setNative_def)
  have o4: "(''java/util/concurrent/atomic/AtomicInteger'',
        [(''compareAndSet(II)Z'', TrapFn AtomicInteger_compareAndSet)]) \<in> set trapped_methods"
    by (simp add: trapped_methods_def)
  have p5: "Method_parse descriptor2typestr (new_Method ''Ljava/nio/Bits;'') 0x0008 ''byteOrder'' ''()Ljava/nio/ByteOrder;'' []
      = Inr (projr (Method_parse descriptor2typestr (new_Method ''Ljava/nio/Bits;'') 0x0008 ''byteOrder'' ''()Ljava/nio/ByteOrder;'' []))"
    by (simp add: Method_parse_def AbstractMethodField_parse_def parse_descriptor_def
        descriptor_match_def line_terminator_def primitive_chars_def count_param_bytes_def
        new_Method_def getTrappedMethod_def trapped_methods_def full_signature_def
        isStatic_def setNative_def)
  have o5: "(''java/nio/Bits'',
        [(''byteOrder()Ljava/nio/ByteOrder;'', TrapFn Bits_byteOrder),
         (''copyToByteArray(JLjava/lang/Object;JJ)V'', TrapFn Bits_copyToByteArray)]) \<in> set trapped_methods"
    by (simp add: trapped_methods_def)
  have p6: "Method_parse descriptor2typestr (new_Method ''Ljava/nio/Bits;'') 0x0108 ''copyToByteArray'' ''(JLjava/lang/Object;JJ)V'' []
      = Inr (projr (Method_parse descriptor2typestr (new_Method ''Ljava/nio/Bits;'') 0x0108 ''copyToByteArray'' ''(JLjava/lang/Object;JJ)V'' []))"
    by (simp add: Method_parse_def AbstractMethodField_parse_def parse_descriptor_def
        descriptor_match_def line_terminator_def primitive_chars_def count_param_bytes_def
        new_Method_def getTrappedMethod_def trapped_methods_def full_signature_def
        isStatic_def setNative_def)
  have o6: "(''java/nio/Bits'',
        [(''byteOrder()Ljava/nio/ByteOrder;'', TrapFn Bits_byteOrder),
         (''copyToByteArray(JLjava/lang/Object;JJ)V'', TrapFn Bits_copyToByteArray)]) \<in> set trapped_methods"
    by (simp add: trapped_methods_def)
  have p7: "Method_parse descriptor2typestr (new_Method ''Ljava/nio/charset/Charset$3;'') 0x0001 ''run'' ''()Ljava/lang/Object;'' []
      = Inr (projr (Method_parse descriptor2typestr (new_Method ''Ljava/nio/charset/Charset$3;'') 0x0001 ''run'' ''()Ljava/lang/Object;'' []))"
    by (simp add: Method_parse_def AbstractMethodField_parse_def parse_descriptor_def
        descriptor_match_def line_terminator_def primitive_chars_def count_param_bytes_def
        new_Method_def getTrappedMethod_def trapped_methods_def full_signature_def
        isStatic_def setNative_def)
  have o7: "(''java/nio/charset/Charset$3'',
        [(''run()Ljava/lang/Object;'', TrapFn Charset3_run)]) \<in> set trapped_methods"
    by (simp add: trapped_methods_def)
  from trap_forces_native [OF p1 o1, of "TrapFn Reference_clinit"]
    trap_forces_native [OF p2 o2, of "TrapFn System_loadLibrary"]
    trap_forces_native [OF p3 o3, of "TrapFn Terminator_setup"]
    trap_forces_native [OF p4 o4, of "TrapFn AtomicInteger_compareAndSet"]
    trap_forces_native [OF p5 o5, of "TrapFn Bits_byteOrder"]
    trap_forces_native [OF p6 o6, of "TrapFn Bits_copyToByteArray"]
    trap_forces_native [OF p7 o7, of "TrapFn Charset3_run"]
    o1 o2 o3 o4 o5 o6 o7
  show ?thesis
    by (simp add: new_Method_def)
qed

section \<open>Code variants and parameter sizes\<close>

text \<open>
  C2, as amended. For a method that \<open>Method.parse\<close> has returned: \<open>getNativeFunction\<close>
  succeeds exactly when the method is NATIVE and \<open>code\<close> is a function, which after
  \<open>parse\<close> is exactly when it is NATIVE (by its flags or by a trap); \<open>getCodeAttribute\<close>
  succeeds exactly when it is neither NATIVE nor ABSTRACT; the two never both succeed; both
  fail for a method that is ABSTRACT and not NATIVE; exactly one succeeds for every other
  method.
\<close>

theorem code_variant_exclusion:
  assumes "Method_parse ext_classname this0 flags nm desc ats = Inr m"
  shows "(\<not> isl (getNativeFunction m)
            \<longleftrightarrow> isNative (accessFlags m) \<and> typeof_function (code m))
       \<and> (\<not> isl (getNativeFunction m) \<longleftrightarrow> isNative (accessFlags m))
       \<and> (\<not> isl (getCodeAttribute m)
            \<longleftrightarrow> \<not> isNative (accessFlags m) \<and> \<not> isAbstract (accessFlags m))
       \<and> (isl (getNativeFunction m) \<or> isl (getCodeAttribute m))
       \<and> (isAbstract (accessFlags m) \<and> \<not> isNative (accessFlags m)
            \<longrightarrow> isl (getNativeFunction m) \<and> isl (getCodeAttribute m))
       \<and> (isNative (accessFlags m) \<or> \<not> isAbstract (accessFlags m)
            \<longrightarrow> isl (getNativeFunction m) \<noteq> isl (getCodeAttribute m))"
  using Method_parse_flags(4) [OF assms]
  by (auto simp: getNativeFunction_def getCodeAttribute_def)

theorem code_variant_exclusion_witness:
  "\<not> isl (Method_parse descriptor2typestr (new_Method ''LFoo;'') 0x0400 ''f'' ''()V'' [])
   \<and> isl (getNativeFunction
        (projr (Method_parse descriptor2typestr (new_Method ''LFoo;'') 0x0400 ''f'' ''()V'' [])))
   \<and> isl (getCodeAttribute
        (projr (Method_parse descriptor2typestr (new_Method ''LFoo;'') 0x0400 ''f'' ''()V'' [])))
   \<and> \<not> isl (Method_parse descriptor2typestr (new_Method ''LFoo;'') 0x0001 ''f'' ''()V''
               [Attribute ''Code'' [42]])
   \<and> isl (getNativeFunction
        (projr (Method_parse descriptor2typestr (new_Method ''LFoo;'') 0x0001 ''f'' ''()V''
                  [Attribute ''Code'' [42]])))
   \<and> getCodeAttribute
        (projr (Method_parse descriptor2typestr (new_Method ''LFoo;'') 0x0001 ''f'' ''()V''
                  [Attribute ''Code'' [42]]))
       = Inr (CodeAttribute (Attribute ''Code'' [42]))"
proof -
  have a: "Method_parse descriptor2typestr (new_Method ''LFoo;'') 0x0400 ''f'' ''()V'' []
     = Inr (new_Method ''LFoo;''\<lparr>accessFlags := 0x0400, name := ''f'', raw_descriptor := ''()V'',
              param_bytes := 1, num_args := 1, return_type := ''V''\<rparr>)"
    by (simp add: Method_parse_def AbstractMethodField_parse_def parse_descriptor_def
        descriptor_match_def line_terminator_def count_param_bytes_def
        new_Method_def getTrappedMethod_def trapped_methods_def full_signature_def
        isStatic_def isNative_def isAbstract_def)
  have b: "Method_parse descriptor2typestr (new_Method ''LFoo;'') 0x0001 ''f'' ''()V''
               [Attribute ''Code'' [42]]
     = Inr (new_Method ''LFoo;''\<lparr>accessFlags := 0x0001, name := ''f'', raw_descriptor := ''()V'',
              attrs := [Attribute ''Code'' [42]],
              param_bytes := 1, num_args := 1, return_type := ''V'',
              code := CodeAttribute (Attribute ''Code'' [42])\<rparr>)"
    by (simp add: Method_parse_def AbstractMethodField_parse_def parse_descriptor_def
        descriptor_match_def line_terminator_def count_param_bytes_def
        new_Method_def getTrappedMethod_def trapped_methods_def full_signature_def
        isStatic_def isNative_def isAbstract_def)
  from code_variant_exclusion [OF a] code_variant_exclusion [OF b] a b show ?thesis
    by (simp add: new_Method_def isNative_def isAbstract_def getCodeAttribute_def)
qed

text \<open>
  C2 as stated fails: a method whose flags are ABSTRACT and NATIVE (0x0500) is parsed by
  the native branch of the cascade, which comes before the abstract one, and
  \<open>getNativeFunction\<close> succeeds on this ABSTRACT method.
\<close>

theorem abstract_native_counterexample:
  "\<not> isl (Method_parse descriptor2typestr (new_Method ''LFoo;'') 0x0500 ''f'' ''()V'' [])
   \<and> isAbstract (accessFlags
        (projr (Method_parse descriptor2typestr (new_Method ''LFoo;'') 0x0500 ''f'' ''()V'' [])))
   \<and> getNativeFunction
        (projr (Method_parse descriptor2typestr (new_Method ''LFoo;'') 0x0500 ''f'' ''()V'' []))
       = Inr (CodeFunction (NativeBinder ''LFoo;'' ''f()V'' ''Foo::f()V''))"
  by (simp add: Method_parse_def AbstractMethodField_parse_def parse_descriptor_def
        descriptor_match_def line_terminator_def count_param_bytes_def
        new_Method_def getTrappedMethod_def trapped_methods_def full_signature_def
        isStatic_def isNative_def isAbstract_def indexOf_def getNativeFunction_def Let_def)

text \<open>
  C3. After \<open>parse_descriptor\<close> has accepted a descriptor (and likewise after the whole
  of \<open>Method.parse\<close>), \<open>getParamWordSize\<close> is the sum over \<open>param_types\<close> of 2 for
  \<open>J\<close> or \<open>D\<close> and 1 otherwise, plus 1 for a non-static method, and
  \<open>getNumberOfParameters\<close> is the number of \<open>param_types\<close>, plus 1 for a non-static
  method.
\<close>

theorem param_word_sizing:
  "(parse_descriptor this raw = Inr m \<longrightarrow>
      getParamWordSize m
        = (\<Sum>p\<leftarrow>param_types m. if p = ''J'' \<or> p = ''D'' then 2 else 1)
          + (if isStatic (accessFlags m) then 0 else 1)
      \<and> getNumberOfParameters m
        = length (param_types m) + (if isStatic (accessFlags m) then 0 else 1))
   \<and> (Method_parse ext_classname this0 flags nm desc ats = Inr m' \<longrightarrow>
      getParamWordSize m'
        = (\<Sum>p\<leftarrow>param_types m'. if p = ''J'' \<or> p = ''D'' then 2 else 1)
          + (if isStatic (accessFlags m') then 0 else 1)
      \<and> getNumberOfParameters m'
        = length (param_types m') + (if isStatic (accessFlags m') then 0 else 1))"
proof (intro conjI impI)
  assume p: "parse_descriptor this raw = Inr m"
  note f = parse_descriptor_fields [OF p]
  show "getParamWordSize m
        = (\<Sum>p\<leftarrow>param_types m. if p = ''J'' \<or> p = ''D'' then 2 else 1)
          + (if isStatic (accessFlags m) then 0 else 1)"
    using f(2) f(7) by (simp add: getParamWordSize_def count_param_bytes_sum)
  show "getNumberOfParameters m
        = length (param_types m) + (if isStatic (accessFlags m) then 0 else 1)"
    using f(2) f(8) by (simp add: getNumberOfParameters_def)
next
  assume p: "Method_parse ext_classname this0 flags nm desc ats = Inr m'"
  note f = Method_parse_flags [OF p]
  show "getParamWordSize m'
        = (\<Sum>p\<leftarrow>param_types m'. if p = ''J'' \<or> p = ''D'' then 2 else 1)
          + (if isStatic (accessFlags m') then 0 else 1)"
    using f(1) f(5) by (simp add: getParamWordSize_def count_param_bytes_sum)
  show "getNumberOfParameters m'
        = length (param_types m') + (if isStatic (accessFlags m') then 0 else 1)"
    using f(1) f(6) by (simp add: getNumberOfParameters_def)
qed

theorem param_word_sizing_witness:
  "parse_descriptor (new_Method ''LFoo;''\<lparr>accessFlags := 0x0008\<rparr>) ''(IJLjava/lang/String;[D)V''
     = Inr (new_Method ''LFoo;''\<lparr>accessFlags := 0x0008,
              param_types := [''I'', ''J'', ''Ljava/lang/String;'', ''[D''],
              param_bytes := 5, num_args := 4, return_type := ''V''\<rparr>)
   \<and> getParamWordSize (new_Method ''LFoo;''\<lparr>accessFlags := 0x0008,
              param_types := [''I'', ''J'', ''Ljava/lang/String;'', ''[D''],
              param_bytes := 5, num_args := 4, return_type := ''V''\<rparr>) = 2 + 1 + 1 + 1
   \<and> Method_parse descriptor2typestr (new_Method ''LFoo;'') 0x0001 ''f'' ''(DI)V'' []
     = Inr (new_Method ''LFoo;''\<lparr>accessFlags := 0x0001, name := ''f'', raw_descriptor := ''(DI)V'',
              param_types := [''D'', ''I''],
              param_bytes := 4, num_args := 3, return_type := ''V'', code := CodeNull\<rparr>)
   \<and> getNumberOfParameters (new_Method ''LFoo;''\<lparr>accessFlags := 0x0001, name := ''f'',
              raw_descriptor := ''(DI)V'', param_types := [''D'', ''I''],
              param_bytes := 4, num_args := 3, return_type := ''V'', code := CodeNull\<rparr>) = 2 + 1"
proof -
  have a: "parse_descriptor (new_Method ''LFoo;''\<lparr>accessFlags := 0x0008\<rparr>) ''(IJLjava/lang/String;[D)V''
     = Inr (new_Method ''LFoo;''\<lparr>accessFlags := 0x0008,
              param_types := [''I'', ''J'', ''Ljava/lang/String;'', ''[D''],
              param_bytes := 5, num_args := 4, return_type := ''V''\<rparr>)"
    by (simp add: parse_descriptor_def descriptor_match_def line_terminator_def
        primitive_chars_def count_param_bytes_def new_Method_def isStatic_def)
  have b: "Method_parse descriptor2typestr (new_Method ''LFoo;'') 0x0001 ''f'' ''(DI)V'' []
     = Inr (new_Method ''LFoo;''\<lparr>accessFlags := 0x0001, name := ''f'', raw_descriptor := ''(DI)V'',
              param_types := [''D'', ''I''],
              param_bytes := 4, num_args := 3, return_type := ''V'', code := CodeNull\<rparr>)"
    by (simp add: Method_parse_def AbstractMethodField_parse_def parse_descriptor_def
        descriptor_match_def line_terminator_def count_param_bytes_def primitive_chars_def
        new_Method_def getTrappedMethod_def trapped_methods_def full_signature_def
        isStatic_def isNative_def isAbstract_def)
  from param_word_sizing [of "new_Method ''LFoo;''\<lparr>accessFlags := 0x0008\<rparr>"
      "''(IJLjava/lang/String;[D)V''" _ descriptor2typestr "new_Method ''LFoo;''" "0x0001"
      "''f''" "''(DI)V''" "[]"] a b
  show ?thesis
    by (simp add: new_Method_def isStatic_def)
qed

text \<open>
  C5. When the caller's stack is \<open>S\<close> followed by \<open>param_bytes\<close> pushed values,
  \<open>takeArgs\<close> returns a new array (a new address of the store) that holds the pushed values
  in order, and the caller's array, at its own address, is \<open>S\<close> again; no other array
  changes.
\<close>

theorem takeArgs_restores_stack:
  assumes "caller_stack < length h"
    and "h ! caller_stack = S @ pushed"
    and "length pushed = param_bytes m"
  shows "takeArgs m h caller_stack = Inr (length h, (h @ [pushed])[caller_stack := S])"
  using assms by (simp add: takeArgs_def alloc_def slice_def Let_def)

theorem takeArgs_restores_stack_witness:
  "takeArgs (new_Method ''LFoo;''\<lparr>param_bytes := 2\<rparr>) [[Num 1, Num 2, Null]] 0
     = Inr (1, [[Num 1], [Num 2, Null]])"
  using takeArgs_restores_stack [of 0 "[[Num 1, Num 2, Null]]" "[Num 1]" "[Num 2, Null]"
      "new_Method ''LFoo;''\<lparr>param_bytes := 2\<rparr>"]
  by (simp add: new_Method_def)



section \<open>Argument conversion\<close>

lemma convert_loop_map:
  "convert_loop ps params acc i
     = acc @ map (\<lambda>k. index_js params (i + (\<Sum>p\<leftarrow>take k ps. if p = ''J'' \<or> p = ''D'' then 2 else 1)))
               [0..<length ps]"
proof (induction ps arbitrary: acc i)
  case Nil
  then show ?case by simp
next
  case (Cons p ps)
  show ?case
    unfolding convert_loop.simps Cons.IH length_Cons map_upt_Suc
    by (simp add: add.assoc)
qed

lemma convert_loop_length:
  "length (convert_loop ps params acc i) = length acc + length ps"
  by (simp add: convert_loop_map)

lemma convert_loop_nth_acc:
  "j < length acc \<Longrightarrow> convert_loop ps params acc i ! j = acc ! j"
  by (simp add: convert_loop_map nth_append)

lemma convert_loop_nth:
  "k < length ps \<Longrightarrow>
     convert_loop ps params acc i ! (length acc + k)
       = index_js params (i + (\<Sum>p\<leftarrow>take k ps. if p = ''J'' \<or> p = ''D'' then 2 else 1))"
  by (simp add: convert_loop_map nth_append)

text \<open>
  C4. For a parsed method and an argument array \<open>params\<close>: if the method is signature
  polymorphic, the array \<open>convertArgs\<close> returns is \<open>thread\<close> followed by the entries of
  \<open>params\<close>, of length \<open>1 + |params|\<close>. Otherwise it has length \<open>1 + num_args\<close>, starts
  with \<open>thread\<close>, then holds \<open>params[0]\<close> for a non-static method, then for the \<open>k\<close>-th
  parameter type the entry of \<open>params\<close> at the index that starts after the receiver and
  grows by 2 for each earlier \<open>J\<close> or \<open>D\<close> and by 1 for each other earlier type (a read
  past the end of \<open>params\<close> gives \<open>undefined\<close>).
\<close>

theorem convertArgs_result:
  assumes "Method_parse ext_classname this0 flags nm desc ats = Inr m"
    and "params < length h"
  shows "\<exists>r h'. convertArgs m h thread params = Inr (r, h')
     \<and> (isSignaturePolymorphic m \<longrightarrow>
          h' ! r = thread # h ! params \<and> length (h' ! r) = 1 + length (h ! params))
     \<and> (\<not> isSignaturePolymorphic m \<longrightarrow>
          length (h' ! r) = 1 + getNumberOfParameters m
        \<and> h' ! r ! 0 = thread
        \<and> (\<not> isStatic (accessFlags m) \<longrightarrow> h' ! r ! 1 = index_js (h ! params) 0)
        \<and> (\<forall>k < length (param_types m).
              h' ! r ! (1 + (if isStatic (accessFlags m) then 0 else 1) + k)
                = index_js (h ! params)
                    ((if isStatic (accessFlags m) then 0 else 1)
                     + (\<Sum>p\<leftarrow>take k (param_types m). if p = ''J'' \<or> p = ''D'' then 2 else 1))))"
proof (cases "isSignaturePolymorphic m")
  case True
  with assms(2) show ?thesis
    by (simp add: convertArgs_def)
next
  case sp: False
  note f = Method_parse_flags [OF assms(1)]
  show ?thesis
  proof (cases "isStatic (accessFlags m)")
    case True
    with sp assms(2) f(1) f(6) show ?thesis
      by (simp add: convertArgs_def alloc_def getNumberOfParameters_def
          convert_loop_length convert_loop_nth_acc convert_loop_nth [of _ _ _ "[thread]", simplified])
  next
    case False
    with sp assms(2) f(1) f(6) show ?thesis
      by (simp add: convertArgs_def alloc_def getNumberOfParameters_def
          convert_loop_length convert_loop_nth_acc
          convert_loop_nth [of _ _ _ "[thread, x]" for x, simplified])
  qed
qed

theorem convertArgs_result_witness:
  "Method_parse descriptor2typestr (new_Method ''LFoo;'') 0x0001 ''f'' ''(DI)V'' []
     = Inr (new_Method ''LFoo;''\<lparr>accessFlags := 0x0001, name := ''f'', raw_descriptor := ''(DI)V'',
              param_types := [''D'', ''I''],
              param_bytes := 4, num_args := 3, return_type := ''V'', code := CodeNull\<rparr>)
   \<and> convertArgs (new_Method ''LFoo;''\<lparr>accessFlags := 0x0001, name := ''f'',
              raw_descriptor := ''(DI)V'', param_types := [''D'', ''I''],
              param_bytes := 4, num_args := 3, return_type := ''V'', code := CodeNull\<rparr>)
         [[Obj 7, Num 5, Null, Num 3]] (Obj 0) 0
     = Inr (1, [[Obj 7, Num 5, Null, Num 3], [Obj 0, Obj 7, Num 5, Num 3]])
   \<and> Method_parse descriptor2typestr (new_Method ''Ljava/lang/invoke/MethodHandle;'') 0x0180
         ''invoke'' ''([Ljava/lang/Object;)Ljava/lang/Object;'' []
     = Inr (new_Method ''Ljava/lang/invoke/MethodHandle;''
             \<lparr>accessFlags := 0x0180, name := ''invoke'',
              raw_descriptor := ''([Ljava/lang/Object;)Ljava/lang/Object;'',
              param_types := [''[Ljava/lang/Object;''],
              param_bytes := 2, num_args := 2, return_type := ''Ljava/lang/Object;'',
              code := CodeFunction (NativeBinder ''Ljava/lang/invoke/MethodHandle;''
                ''invoke([Ljava/lang/Object;)Ljava/lang/Object;''
                ''java/lang/invoke/MethodHandle::invoke([Ljava/lang/Object;)Ljava/lang/Object;'')\<rparr>)
   \<and> convertArgs (new_Method ''Ljava/lang/invoke/MethodHandle;''
             \<lparr>accessFlags := 0x0180, name := ''invoke'',
              raw_descriptor := ''([Ljava/lang/Object;)Ljava/lang/Object;'',
              param_types := [''[Ljava/lang/Object;''],
              param_bytes := 2, num_args := 2, return_type := ''Ljava/lang/Object;'',
              code := CodeFunction (NativeBinder ''Ljava/lang/invoke/MethodHandle;''
                ''invoke([Ljava/lang/Object;)Ljava/lang/Object;''
                ''java/lang/invoke/MethodHandle::invoke([Ljava/lang/Object;)Ljava/lang/Object;'')\<rparr>)
         [[Obj 1, Obj 2, Obj 3]] (Obj 0) 0
     = Inr (0, [[Obj 0, Obj 1, Obj 2, Obj 3]])"
proof -
  have a: "Method_parse descriptor2typestr (new_Method ''LFoo;'') 0x0001 ''f'' ''(DI)V'' []
     = Inr (new_Method ''LFoo;''\<lparr>accessFlags := 0x0001, name := ''f'', raw_descriptor := ''(DI)V'',
              param_types := [''D'', ''I''],
              param_bytes := 4, num_args := 3, return_type := ''V'', code := CodeNull\<rparr>)"
    by (simp add: Method_parse_def AbstractMethodField_parse_def parse_descriptor_def
        descriptor_match_def line_terminator_def count_param_bytes_def primitive_chars_def
        new_Method_def getTrappedMethod_def trapped_methods_def full_signature_def
        isStatic_def isNative_def isAbstract_def)
  have b: "Method_parse descriptor2typestr (new_Method ''Ljava/lang/invoke/MethodHandle;'') 0x0180
         ''invoke'' ''([Ljava/lang/Object;)Ljava/lang/Object;'' []
     = Inr (new_Method ''Ljava/lang/invoke/MethodHandle;''
             \<lparr>accessFlags := 0x0180, name := ''invoke'',
              raw_descriptor := ''([Ljava/lang/Object;)Ljava/lang/Object;'',
              param_types := [''[Ljava/lang/Object;''],
              param_bytes := 2, num_args := 2, return_type := ''Ljava/lang/Object;'',
              code := CodeFunction (NativeBinder ''Ljava/lang/invoke/MethodHandle;''
                ''invoke([Ljava/lang/Object;)Ljava/lang/Object;''
                ''java/lang/invoke/MethodHandle::invoke([Ljava/lang/Object;)Ljava/lang/Object;'')\<rparr>)"
    by (simp add: Method_parse_def AbstractMethodField_parse_def parse_descriptor_def
        descriptor_match_def line_terminator_def count_param_bytes_def primitive_chars_def
        new_Method_def getTrappedMethod_def trapped_methods_def full_signature_def
        isStatic_def isNative_def isAbstract_def indexOf_def Let_def)
  from convertArgs_result [OF a, of 0 "[[Obj 7, Num 5, Null, Num 3]]" "Obj 0"]
    convertArgs_result [OF b, of 0 "[[Obj 1, Obj 2, Obj 3]]" "Obj 0"] a b
  show ?thesis
    by (simp add: convertArgs_def isSignaturePolymorphic_def new_Method_def isStatic_def
        isNative_def isVarArgs_def alloc_def index_js_def)
qed

text \<open>
  C10. In the signature polymorphic branch \<open>convertArgs\<close> returns the address of
  \<open>params\<close> itself, whose array now starts with \<open>thread\<close>; no array is allocated and no
  other array changes. In the other branch it returns a new address, and every array of
  the old store, \<open>params\<close> among them, is unchanged.
\<close>

theorem convertArgs_aliasing:
  assumes "params < length h"
  shows "\<exists>r h'. convertArgs m h thread params = Inr (r, h')
     \<and> (isSignaturePolymorphic m \<longrightarrow>
          r = params \<and> length h' = length h \<and> h' ! params = thread # h ! params
        \<and> (\<forall>a < length h. a \<noteq> params \<longrightarrow> h' ! a = h ! a))
     \<and> (\<not> isSignaturePolymorphic m \<longrightarrow>
          r = length h \<and> r \<noteq> params \<and> length h' = length h + 1
        \<and> (\<forall>a < length h. h' ! a = h ! a))"
  using assms
  by (auto simp: convertArgs_def alloc_def nth_append)

theorem convertArgs_aliasing_witness:
  "convertArgs (new_Method ''LFoo;''\<lparr>accessFlags := 0x0008, param_types := [''J'', ''I'']\<rparr>)
       [[Num 5, Null, Num 3]] (Obj 0) 0
     = Inr (1, [[Num 5, Null, Num 3], [Obj 0, Num 5, Num 3]])
   \<and> convertArgs (new_Method ''Ljava/lang/invoke/MethodHandle;''
         \<lparr>accessFlags := 0x0180, raw_descriptor := ''([Ljava/lang/Object;)Ljava/lang/Object;''\<rparr>)
       [[Obj 1, Obj 2], [Obj 3]] (Obj 0) 1
     = Inr (1, [[Obj 1, Obj 2], [Obj 0, Obj 3]])"
  using convertArgs_aliasing [of 0 "[[Num 5, Null, Num 3]]"
      "new_Method ''LFoo;''\<lparr>accessFlags := 0x0008, param_types := [''J'', ''I'']\<rparr>" "Obj 0"]
    convertArgs_aliasing [of 1 "[[Obj 1, Obj 2], [Obj 3]]"
      "new_Method ''Ljava/lang/invoke/MethodHandle;''
         \<lparr>accessFlags := 0x0180, raw_descriptor := ''([Ljava/lang/Object;)Ljava/lang/Object;''\<rparr>"
      "Obj 0"]
  by (simp add: convertArgs_def isSignaturePolymorphic_def new_Method_def isStatic_def
        isNative_def isVarArgs_def alloc_def index_js_def)



section \<open>The classpath and the class bytes provider\<close>

lemma classpath_loop_filter:
  "classpath_loop n e xs acc = acc @ filter e (map (\<lambda>p. add_trailing_slash (n p)) xs)"
  by (induction xs arbitrary: acc) (auto simp: Let_def)

lemma split_colon_not_Nil: "split_colon s \<noteq> []"
  by (induction s) (auto split: list.splits)

lemma split_colon_no_colon: "x \<in> set (split_colon s) \<Longrightarrow> CHR '':'' \<notin> set x"
  by (induction s arbitrary: x) (auto split: list.splits if_splits)

lemma split_colon_join: "concat (map (\<lambda>x. x @ '':'') (split_colon s)) = s @ '':''"
  by (induction s) (auto split: list.splits simp: split_colon_not_Nil)

lemma add_trailing_slash_last: "add_trailing_slash p \<noteq> [] \<and> last (add_trailing_slash p) = CHR ''/''"
  by (simp add: add_trailing_slash_def)

text \<open>
  C9, as amended. \<open>set_classpath\<close> leaves, in order, the entries of the user's classpath
  split on \<open>:\<close> (no entry holds a \<open>:\<close>, and joining them gives the classpath back)
  followed by \<open>jcl_path\<close>, each normalized and with a trailing \<open>/\<close>, without those
  whose directory does not exist; every entry left exists and ends with \<open>/\<close>. The last
  entry is the Java Class Library root when the directory of \<open>jcl_path\<close> exists.
\<close>

theorem set_classpath_effective:
  "set_classpath path_normalize existsSync jcl_path classpath
     = filter existsSync
         (map (\<lambda>p. add_trailing_slash (path_normalize p)) (split_colon classpath @ [jcl_path]))
   \<and> (\<forall>x \<in> set (split_colon classpath). CHR '':'' \<notin> set x)
   \<and> concat (map (\<lambda>x. x @ '':'') (split_colon classpath)) = classpath @ '':''
   \<and> (\<forall>p \<in> set (set_classpath path_normalize existsSync jcl_path classpath).
         existsSync p \<and> p \<noteq> [] \<and> last p = CHR ''/'')
   \<and> (existsSync (add_trailing_slash (path_normalize jcl_path)) \<longrightarrow>
         set_classpath path_normalize existsSync jcl_path classpath \<noteq> []
       \<and> last (set_classpath path_normalize existsSync jcl_path classpath)
           = add_trailing_slash (path_normalize jcl_path))"
proof -
  have eq: "set_classpath path_normalize existsSync jcl_path classpath
     = filter existsSync
         (map (\<lambda>p. add_trailing_slash (path_normalize p)) (split_colon classpath @ [jcl_path]))"
    by (simp add: set_classpath_def classpath_loop_filter)
  have ends: "\<forall>p \<in> set (set_classpath path_normalize existsSync jcl_path classpath).
         existsSync p \<and> p \<noteq> [] \<and> last p = CHR ''/''"
    unfolding eq using add_trailing_slash_last by auto
  have jcl: "existsSync (add_trailing_slash (path_normalize jcl_path)) \<longrightarrow>
         set_classpath path_normalize existsSync jcl_path classpath \<noteq> []
       \<and> last (set_classpath path_normalize existsSync jcl_path classpath)
           = add_trailing_slash (path_normalize jcl_path)"
    unfolding eq by simp
  from eq ends jcl split_colon_no_colon split_colon_join show ?thesis
    by blast
qed

theorem set_classpath_effective_witness:
  "set_classpath id (dirs_existsSync [''/a/'', ''/jcl/'']) ''/jcl'' ''/a:/b/''
     = [''/a/'', ''/jcl/'']
   \<and> split_colon ''/a:/b/'' = [''/a'', ''/b/'']
   \<and> dirs_existsSync [''/a/'', ''/jcl/''] (add_trailing_slash (id ''/jcl''))"
  using set_classpath_effective [of id "dirs_existsSync [''/a/'', ''/jcl/'']" "''/jcl''" "''/a:/b/''"]
  by (simp add: dirs_existsSync_def add_trailing_slash_def)

text \<open>
  C9 as stated fails: \<open>jcl_path\<close> goes through the same existence test as every other
  entry. With \<open>/a/\<close> the only directory, the classpath set from \<open>/jcl\<close> and \<open>/a\<close> ends
  with \<open>/a/\<close>, not with the library root; with no directory at all it is empty.
\<close>

theorem missing_jcl_counterexample:
  "set_classpath id (dirs_existsSync [''/a/'']) ''/jcl'' ''/a'' = [''/a/'']
   \<and> last (set_classpath id (dirs_existsSync [''/a/'']) ''/jcl'' ''/a'')
       \<noteq> add_trailing_slash (id ''/jcl'')
   \<and> set_classpath id (dirs_existsSync []) ''/jcl'' ''/a'' = []"
  by (simp add: set_classpath_def dirs_existsSync_def add_trailing_slash_def)

lemma read_loop_skip:
  "\<forall>q \<in> set pre. \<not> ex (class_filename q c) \<Longrightarrow>
     read_loop ex rd cb fcb c (pre @ rest)
       = (map (\<lambda>q. ExistsSync (class_filename q c)) pre @ fst (read_loop ex rd cb fcb c rest),
          snd (read_loop ex rd cb fcb c rest))"
  by (induction pre) (auto simp: Let_def split_beta)

lemma read_loop_Cb_source:
  "Cb d \<in> set (fst (read_loop ex rd cb fcb c cp)) \<Longrightarrow>
     \<exists>pre p post s. cp = pre @ p # post \<and> (\<forall>q \<in> set pre. \<not> ex (class_filename q c))
        \<and> ex (class_filename p c) \<and> rd (class_filename p c) = Inr s \<and> d = bytestr_to_array s"
proof (induction cp)
  case Nil
  then show ?case by (simp add: Let_def)
next
  case (Cons p ps)
  show ?case
  proof (cases "ex (class_filename p c)")
    case False
    with Cons.prems have "Cb d \<in> set (fst (read_loop ex rd cb fcb c ps))"
      by (simp add: Let_def split_beta)
    from Cons.IH [OF this] obtain pre p' post s where
      h: "ps = pre @ p' # post" "\<forall>q \<in> set pre. \<not> ex (class_filename q c)"
         "ex (class_filename p' c)" "rd (class_filename p' c) = Inr s" "d = bytestr_to_array s"
      by blast
    from h False have "p # ps = (p # pre) @ p' # post
        \<and> (\<forall>q \<in> set (p # pre). \<not> ex (class_filename q c))
        \<and> ex (class_filename p' c) \<and> rd (class_filename p' c) = Inr s
        \<and> d = bytestr_to_array s"
      by simp
    then show ?thesis by blast
  next
    case True
    with Cons.prems obtain s where "rd (class_filename p c) = Inr s" "d = bytestr_to_array s"
      by (auto simp: Let_def split: sum.splits option.splits)
    with True have "p # ps = [] @ p # ps \<and> (\<forall>q \<in> set []. \<not> ex (class_filename q c))
        \<and> ex (class_filename p c) \<and> rd (class_filename p c) = Inr s
        \<and> d = bytestr_to_array s"
      by simp
    then show ?thesis by blast
  qed
qed

text \<open>
  C6. When the class file is missing under the entries before \<open>p\<close> and exists and is
  readable under \<open>p\<close>, \<open>read_classfile\<close> probes those entries in order, reads the file
  under \<open>p\<close>, hands its bytes to \<open>cb\<close> and touches no later entry (whatever the later
  entries hold; the only call that can follow is the one of \<open>failure_cb\<close> when \<open>cb\<close> itself
  raises). Conversely, bytes handed to \<open>cb\<close> in any run are those of the first entry under
  which the file exists.
\<close>

theorem classpath_first_hit:
  "(classpath = pre @ p # post
      \<and> (\<forall>q \<in> set pre. \<not> existsSync (class_filename q (butlast (tl clsname))))
      \<and> existsSync (class_filename p (butlast (tl clsname)))
      \<and> readFileSync (class_filename p (butlast (tl clsname))) = Inr s
    \<longrightarrow> fst (read_classfile classpath existsSync readFileSync clsname cb failure_cb)
          = map (\<lambda>q. ExistsSync (class_filename q (butlast (tl clsname)))) pre
            @ [ExistsSync (class_filename p (butlast (tl clsname))),
               ReadFileSync (class_filename p (butlast (tl clsname))),
               Cb (bytestr_to_array s)]
            @ (case cb (bytestr_to_array s) of None \<Rightarrow> [] | Some e \<Rightarrow> [FailureCb e]))
   \<and> (Cb d \<in> set (fst (read_classfile classpath existsSync readFileSync clsname cb failure_cb))
    \<longrightarrow> (\<exists>pre' p' post' s'. classpath = pre' @ p' # post'
          \<and> (\<forall>q \<in> set pre'. \<not> existsSync (class_filename q (butlast (tl clsname))))
          \<and> existsSync (class_filename p' (butlast (tl clsname)))
          \<and> readFileSync (class_filename p' (butlast (tl clsname))) = Inr s'
          \<and> d = bytestr_to_array s'))"
proof (intro conjI impI)
  assume h: "classpath = pre @ p # post
      \<and> (\<forall>q \<in> set pre. \<not> existsSync (class_filename q (butlast (tl clsname))))
      \<and> existsSync (class_filename p (butlast (tl clsname)))
      \<and> readFileSync (class_filename p (butlast (tl clsname))) = Inr s"
  then have skip: "\<forall>q \<in> set pre. \<not> existsSync (class_filename q (butlast (tl clsname)))"
    by simp
  show "fst (read_classfile classpath existsSync readFileSync clsname cb failure_cb)
          = map (\<lambda>q. ExistsSync (class_filename q (butlast (tl clsname)))) pre
            @ [ExistsSync (class_filename p (butlast (tl clsname))),
               ReadFileSync (class_filename p (butlast (tl clsname))),
               Cb (bytestr_to_array s)]
            @ (case cb (bytestr_to_array s) of None \<Rightarrow> [] | Some e \<Rightarrow> [FailureCb e])"
    using h by (simp add: read_classfile_def read_loop_skip [OF skip] Let_def split: option.splits)
next
  assume "Cb d \<in> set (fst (read_classfile classpath existsSync readFileSync clsname cb failure_cb))"
  then show "\<exists>pre' p' post' s'. classpath = pre' @ p' # post'
          \<and> (\<forall>q \<in> set pre'. \<not> existsSync (class_filename q (butlast (tl clsname))))
          \<and> existsSync (class_filename p' (butlast (tl clsname)))
          \<and> readFileSync (class_filename p' (butlast (tl clsname))) = Inr s'
          \<and> d = bytestr_to_array s'"
    unfolding read_classfile_def by (rule read_loop_Cb_source)
qed

theorem classpath_first_hit_witness:
  "fst (read_classfile [''/x/'', ''/a/'', ''/jcl/'']
          (files_existsSync [(''/jcl//foo/Bar.class'', Inr ''J''),
                             (''/a//foo/Bar.class'', Inr ''A'')])
          (files_readFileSync [(''/jcl//foo/Bar.class'', Inr ''J''),
                               (''/a//foo/Bar.class'', Inr ''A'')]) ''Lfoo/Bar;'' returns returns)
     = [ExistsSync ''/x//foo/Bar.class'', ExistsSync ''/a//foo/Bar.class'',
        ReadFileSync ''/a//foo/Bar.class'', Cb (bytestr_to_array ''A'')]
   \<and> bytestr_to_array ''A'' = [65]"
  using classpath_first_hit [of "[''/x/'', ''/a/'', ''/jcl/'']" "[''/x/'']" "''/a/''" "[''/jcl/'']"
      "files_existsSync [(''/jcl//foo/Bar.class'', Inr ''J''),
                         (''/a//foo/Bar.class'', Inr ''A'')]" "''Lfoo/Bar;''"
      "files_readFileSync [(''/jcl//foo/Bar.class'', Inr ''J''),
                           (''/a//foo/Bar.class'', Inr ''A'')]" "''A''" returns returns
      "bytestr_to_array ''A''"]
  by (simp add: read_classfile_def class_filename_def files_existsSync_def
      files_readFileSync_def returns_def bytestr_to_array_def Let_def)


lemma read_loop_one_callback_run:
  "\<forall>d. Cb d \<in> set (fst (read_loop ex rd cb fcb c cp)) \<longrightarrow> cb d = None \<Longrightarrow>
     length (filter is_callback (fst (read_loop ex rd cb fcb c cp))) = 1"
proof (induction cp)
  case Nil
  show ?case by (simp add: Let_def)
next
  case (Cons p ps)
  show ?case
  proof (cases "ex (class_filename p c)")
    case False
    with Cons.prems have "\<forall>d. Cb d \<in> set (fst (read_loop ex rd cb fcb c ps)) \<longrightarrow> cb d = None"
      by (simp add: Let_def split_beta)
    from Cons.IH [OF this] False show ?thesis
      by (simp add: Let_def split_beta)
  next
    case True
    show ?thesis
    proof (cases "rd (class_filename p c)")
      case (Inl e)
      with True show ?thesis by (simp add: Let_def)
    next
      case (Inr s)
      with True have "Cb (bytestr_to_array s) \<in> set (fst (read_loop ex rd cb fcb c (p # ps)))"
        by (simp add: Let_def split: option.splits)
      with Cons.prems have "cb (bytestr_to_array s) = None"
        by blast
      with True Inr show ?thesis by (simp add: Let_def)
    qed
  qed
qed

text \<open>
  C7, as amended. In a run in which \<open>cb\<close> returns normally on the bytes it is called with
  (it may raise on other bytes, and it need not be called at all), exactly one call of a
  callback is made, and it is \<open>cb\<close> with the bytes of the first entry under which the file
  exists when reading it succeeds. Whatever \<open>cb\<close> is: when reading that file raises, the
  one callback called is \<open>failure_cb\<close> with the error of the read, and no later entry is
  probed; when the file exists under no entry, the one callback called is \<open>failure_cb\<close>
  with the error "No file found".
\<close>

theorem callbacks_exactly_once:
  "((\<forall>d. Cb d \<in> set (fst (read_classfile classpath existsSync readFileSync clsname cb failure_cb))
          \<longrightarrow> cb d = None)
     \<longrightarrow> length (filter is_callback
            (fst (read_classfile classpath existsSync readFileSync clsname cb failure_cb))) = 1
       \<and> (classpath = pre @ p # post
            \<and> (\<forall>q \<in> set pre. \<not> existsSync (class_filename q (butlast (tl clsname))))
            \<and> existsSync (class_filename p (butlast (tl clsname)))
            \<and> readFileSync (class_filename p (butlast (tl clsname))) = Inr s
          \<longrightarrow> fst (read_classfile classpath existsSync readFileSync clsname cb failure_cb)
                = map (\<lambda>q. ExistsSync (class_filename q (butlast (tl clsname)))) pre
                  @ [ExistsSync (class_filename p (butlast (tl clsname))),
                     ReadFileSync (class_filename p (butlast (tl clsname))),
                     Cb (bytestr_to_array s)]))
   \<and> (classpath = pre @ p # post
        \<and> (\<forall>q \<in> set pre. \<not> existsSync (class_filename q (butlast (tl clsname))))
        \<and> existsSync (class_filename p (butlast (tl clsname)))
        \<and> readFileSync (class_filename p (butlast (tl clsname))) = Inl e
      \<longrightarrow> fst (read_classfile classpath existsSync readFileSync clsname cb failure_cb)
            = map (\<lambda>q. ExistsSync (class_filename q (butlast (tl clsname)))) pre
              @ [ExistsSync (class_filename p (butlast (tl clsname))),
                 ReadFileSync (class_filename p (butlast (tl clsname))),
                 FailureCb e]
        \<and> filter is_callback
            (fst (read_classfile classpath existsSync readFileSync clsname cb failure_cb))
            = [FailureCb e])
   \<and> ((\<forall>q \<in> set classpath. \<not> existsSync (class_filename q (butlast (tl clsname))))
      \<longrightarrow> fst (read_classfile classpath existsSync readFileSync clsname cb failure_cb)
            = map (\<lambda>q. ExistsSync (class_filename q (butlast (tl clsname)))) classpath
              @ [FailureCb (Error (''Error: No file found for class ''
                                     @ butlast (tl clsname) @ ''.''))]
        \<and> filter is_callback
            (fst (read_classfile classpath existsSync readFileSync clsname cb failure_cb))
            = [FailureCb (Error (''Error: No file found for class ''
                                   @ butlast (tl clsname) @ ''.''))])"
proof -
  let ?c = "butlast (tl clsname)"
  let ?run = "fst (read_classfile classpath existsSync readFileSync clsname cb failure_cb)"
  have once: "length (filter is_callback ?run) = 1"
    if "\<forall>d. Cb d \<in> set ?run \<longrightarrow> cb d = None"
    using that unfolding read_classfile_def by (rule read_loop_one_callback_run)
  have hit: "?run = map (\<lambda>q. ExistsSync (class_filename q ?c)) pre
                  @ [ExistsSync (class_filename p ?c), ReadFileSync (class_filename p ?c),
                     Cb (bytestr_to_array s)]"
    if ok: "\<forall>d. Cb d \<in> set ?run \<longrightarrow> cb d = None"
      and h: "classpath = pre @ p # post
            \<and> (\<forall>q \<in> set pre. \<not> existsSync (class_filename q ?c))
            \<and> existsSync (class_filename p ?c)
            \<and> readFileSync (class_filename p ?c) = Inr s"
  proof -
    from h have skip: "\<forall>q \<in> set pre. \<not> existsSync (class_filename q ?c)"
      by simp
    from h have "Cb (bytestr_to_array s) \<in> set ?run"
      by (simp add: read_classfile_def read_loop_skip [OF skip] Let_def split: option.splits)
    with ok have "cb (bytestr_to_array s) = None"
      by blast
    with h show ?thesis
      by (simp add: read_classfile_def read_loop_skip [OF skip] Let_def)
  qed
  have io: "?run = map (\<lambda>q. ExistsSync (class_filename q ?c)) pre
              @ [ExistsSync (class_filename p ?c), ReadFileSync (class_filename p ?c),
                 FailureCb e]
        \<and> filter is_callback ?run = [FailureCb e]"
    if h: "classpath = pre @ p # post
        \<and> (\<forall>q \<in> set pre. \<not> existsSync (class_filename q ?c))
        \<and> existsSync (class_filename p ?c)
        \<and> readFileSync (class_filename p ?c) = Inl e"
  proof -
    from h have skip: "\<forall>q \<in> set pre. \<not> existsSync (class_filename q ?c)"
      by simp
    from h show ?thesis
      by (simp add: read_classfile_def read_loop_skip [OF skip] Let_def filter_empty_conv)
  qed
  have none: "?run = map (\<lambda>q. ExistsSync (class_filename q ?c)) classpath
              @ [FailureCb (Error (''Error: No file found for class '' @ ?c @ ''.''))]
        \<and> filter is_callback ?run
            = [FailureCb (Error (''Error: No file found for class '' @ ?c @ ''.''))]"
    if skip: "\<forall>q \<in> set classpath. \<not> existsSync (class_filename q ?c)"
    using read_loop_skip [OF skip, of readFileSync cb failure_cb "[]"]
    by (simp add: read_classfile_def Let_def filter_empty_conv)
  from once hit io none show ?thesis
    by blast
qed

text \<open>
  C7 as stated fails: the call of \<open>cb\<close> is inside the \<open>try\<close> block, so when \<open>cb\<close> raises,
  the \<open>catch\<close> clause calls \<open>failure_cb\<close> as well, and both callbacks have been called.
\<close>

theorem raising_callback_counterexample:
  "fst (read_classfile [''/a/''] (files_existsSync [(''/a//Foo.class'', Inr ''xy'')])
          (files_readFileSync [(''/a//Foo.class'', Inr ''xy'')]) ''LFoo;''
          (raises (Error ''ClassFormatError'')) returns)
     = [ExistsSync ''/a//Foo.class'', ReadFileSync ''/a//Foo.class'', Cb [120, 121],
        FailureCb (Error ''ClassFormatError'')]
   \<and> length (filter is_callback
        (fst (read_classfile [''/a/''] (files_existsSync [(''/a//Foo.class'', Inr ''xy'')])
          (files_readFileSync [(''/a//Foo.class'', Inr ''xy'')]) ''LFoo;''
          (raises (Error ''ClassFormatError'')) returns))) = 2"
  by (simp add: read_classfile_def class_filename_def files_existsSync_def
      files_readFileSync_def raises_def returns_def bytestr_to_array_def Let_def)

theorem callbacks_exactly_once_witness:
  "fst (read_classfile [''/x/'', ''/a/'', ''/jcl/'']
          (files_existsSync [(''/a//Foo.class'', Inr ''xy'')])
          (files_readFileSync [(''/a//Foo.class'', Inr ''xy'')]) ''LFoo;''
          (accepts [120, 121] (Error ''ClassFormatError'')) returns)
     = [ExistsSync ''/x//Foo.class'', ExistsSync ''/a//Foo.class'',
        ReadFileSync ''/a//Foo.class'', Cb [120, 121]]
   \<and> accepts [120, 121] (Error ''ClassFormatError'') [] = Some (Error ''ClassFormatError'')
   \<and> fst (read_classfile [''/x/'', ''/a/'', ''/jcl/'']
          (files_existsSync [(''/a//Foo.class'', Inl (Error ''EACCES'')),
                             (''/jcl//Foo.class'', Inr ''xy'')])
          (files_readFileSync [(''/a//Foo.class'', Inl (Error ''EACCES'')),
                               (''/jcl//Foo.class'', Inr ''xy'')]) ''LFoo;''
          (raises (Error ''ClassFormatError'')) returns)
     = [ExistsSync ''/x//Foo.class'', ExistsSync ''/a//Foo.class'',
        ReadFileSync ''/a//Foo.class'', FailureCb (Error ''EACCES'')]
   \<and> fst (read_classfile [''/x/'', ''/a/''] (files_existsSync []) (files_readFileSync [])
          ''LFoo;'' (raises (Error ''ClassFormatError'')) returns)
     = [ExistsSync ''/x//Foo.class'', ExistsSync ''/a//Foo.class'',
        FailureCb (Error ''Error: No file found for class Foo.'')]"
  using callbacks_exactly_once [of "[''/x/'', ''/a/'', ''/jcl/'']"
      "files_existsSync [(''/a//Foo.class'', Inr ''xy'')]"
      "files_readFileSync [(''/a//Foo.class'', Inr ''xy'')]" "''LFoo;''"
      "accepts [120, 121] (Error ''ClassFormatError'')" returns
      "[''/x/'']" "''/a/''" "[''/jcl/'']" "''xy''"]
    callbacks_exactly_once [of "[''/x/'', ''/a/'', ''/jcl/'']"
      "files_existsSync [(''/a//Foo.class'', Inl (Error ''EACCES'')),
                         (''/jcl//Foo.class'', Inr ''xy'')]"
      "files_readFileSync [(''/a//Foo.class'', Inl (Error ''EACCES'')),
                           (''/jcl//Foo.class'', Inr ''xy'')]" "''LFoo;''"
      "raises (Error ''ClassFormatError'')" returns
      "[''/x/'']" "''/a/''" "[''/jcl/'']" _ "Error ''EACCES''"]
    callbacks_exactly_once [of "[''/x/'', ''/a/'']" "files_existsSync []"
      "files_readFileSync []" "''LFoo;''" "raises (Error ''ClassFormatError'')" returns]
  by (simp add: read_classfile_def class_filename_def files_existsSync_def
      files_readFileSync_def returns_def raises_def accepts_def bytestr_to_array_def Let_def)


section \<open>The decoder against the descriptor grammar\<close>

lemma read_class_name_sound:
  "read_class_name cs = Some (nm, rest) \<Longrightarrow>
     \<exists>n. nm = n @ '';'' \<and> CHR '';'' \<notin> set n \<and> cs = nm @ rest"
proof (induction cs arbitrary: nm rest)
  case Nil
  then show ?case by simp
next
  case (Cons c cs)
  show ?case
  proof (cases "c = CHR '';''")
    case True
    with Cons.prems show ?thesis by simp
  next
    case False
    with Cons.prems obtain nm' where r: "read_class_name cs = Some (nm', rest)" and nm: "nm = c # nm'"
      by (auto split: option.splits)
    from Cons.IH [OF r] obtain n where "nm' = n @ '';''" "CHR '';'' \<notin> set n" "cs = nm' @ rest"
      by blast
    with False nm have "nm = (c # n) @ '';'' \<and> CHR '';'' \<notin> set (c # n) \<and> c # cs = nm @ rest"
      by simp
    then show ?thesis by blast
  qed
qed

lemma read_class_name_complete:
  "CHR '';'' \<notin> set n \<Longrightarrow> read_class_name (n @ '';'' @ rest) = Some (n @ '';'', rest)"
  by (induction n) auto

lemma carr2descriptor_sound:
  "carr2descriptor cs = Inr (Some t, rest) \<Longrightarrow> token t \<and> cs = t @ rest"
proof (induction cs arbitrary: t rest)
  case Nil
  then show ?case by simp
next
  case (Cons c cs)
  consider (prim) "c \<in> set primitive_chars"
    | (ref) "c \<notin> set primitive_chars" "c = CHR ''L''"
    | (arr) "c \<notin> set primitive_chars" "c \<noteq> CHR ''L''" "c = CHR ''[''"
    | (bad) "c \<notin> set primitive_chars" "c \<noteq> CHR ''L''" "c \<noteq> CHR ''[''"
    by blast
  then show ?case
  proof cases
    case prim
    with Cons.prems show ?thesis by (auto intro: token.primitive)
  next
    case ref
    with Cons.prems obtain nm where r: "read_class_name cs = Some (nm, rest)" and t: "t = c # nm"
      by (auto split: option.splits)
    from read_class_name_sound [OF r] obtain n where
      "nm = n @ '';''" "CHR '';'' \<notin> set n" "cs = nm @ rest"
      by blast
    with ref t show ?thesis by (auto intro: token.reference)
  next
    case arr
    with Cons.prems obtain t' where r: "carr2descriptor cs = Inr (Some t', rest)" and t: "t = c # t'"
      by (auto split: sum.splits option.splits)
    from Cons.IH [OF r] arr t show ?thesis by (auto intro: token.array)
  next
    case bad
    with Cons.prems show ?thesis by simp
  qed
qed

lemma carr2descriptor_complete:
  "token t \<Longrightarrow> carr2descriptor (t @ rest) = Inr (Some t, rest)"
proof (induction rule: token.induct)
  case (primitive c)
  then show ?case by simp
next
  case (reference nm)
  then show ?case
    using read_class_name_complete [of nm rest] by (simp add: primitive_chars_def)
next
  case (array t)
  then show ?case by (simp add: primitive_chars_def)
qed

lemma carr2descriptor_error: "carr2descriptor cs = Inl e \<Longrightarrow> e = BadDescriptor"
  by (induction cs) (auto split: if_splits option.splits sum.splits)

lemma carr2descriptor_null: "carr2descriptor cs = Inr (None, rest) \<Longrightarrow> cs = []"
  by (cases cs) (auto split: if_splits option.splits sum.splits)

declare param_loop.simps [simp del]

lemma param_loop_sound:
  "param_loop cs = Inr ts \<Longrightarrow> concat ts = cs \<and> (\<forall>t \<in> set ts. token t)"
proof (induction cs arbitrary: ts rule: param_loop.induct)
  case (1 carr)
  show ?case
  proof (cases "carr2descriptor carr")
    case (Inl e)
    with "1.prems" show ?thesis by (simp add: param_loop.simps [of carr])
  next
    case (Inr r)
    obtain field rest where r: "r = (field, rest)" by (cases r)
    show ?thesis
    proof (cases field)
      case None
      with Inr r "1.prems" carr2descriptor_null [of carr rest] show ?thesis
        by (simp add: param_loop.simps [of carr])
    next
      case (Some t)
      with Inr r have c: "carr2descriptor carr = Inr (Some t, rest)" by simp
      with "1.prems" obtain ts' where p: "param_loop rest = Inr ts'" and ts: "ts = t # ts'"
        by (auto simp: param_loop.simps [of carr] split: sum.splits)
      from "1.IH" [OF c refl refl p] carr2descriptor_sound [OF c] ts show ?thesis
        by simp
    qed
  qed
qed

lemma param_loop_error: "param_loop cs = Inl e \<Longrightarrow> e = BadDescriptor"
proof (induction cs rule: param_loop.induct)
  case (1 carr)
  show ?case
  proof (cases "carr2descriptor carr")
    case (Inl e')
    with "1.prems" carr2descriptor_error [OF Inl] show ?thesis
      by (simp add: param_loop.simps [of carr])
  next
    case (Inr r)
    obtain field rest where r: "r = (field, rest)" by (cases r)
    show ?thesis
    proof (cases field)
      case None
      with Inr r "1.prems" show ?thesis by (simp add: param_loop.simps [of carr])
    next
      case (Some t)
      with Inr r have c: "carr2descriptor carr = Inr (Some t, rest)" by simp
      with "1.prems" have "param_loop rest = Inl e"
        by (auto simp: param_loop.simps [of carr] split: sum.splits)
      from "1.IH" [OF c refl refl this] show ?thesis .
    qed
  qed
qed

lemma param_loop_complete: "token_sequence cs \<Longrightarrow> \<exists>ts. param_loop cs = Inr ts"
proof (induction rule: token_sequence.induct)
  case empty
  show ?case by (simp add: param_loop.simps [of "[]"])
next
  case (more t s)
  then obtain ts where "param_loop s = Inr ts" by blast
  with carr2descriptor_complete [OF more.hyps(1), of s]
  have "param_loop (t @ s) = Inr (t # ts)"
    by (simp add: param_loop.simps [of "t @ s"])
  then show ?case by blast
qed

lemma token_sequence_concat: "\<forall>t \<in> set ts. token t \<Longrightarrow> token_sequence (concat ts)"
  by (induction ts) (auto intro: token_sequence.intros)

lemma param_loop_rejects: "param_loop cs = Inl e \<Longrightarrow> \<not> token_sequence cs"
  using param_loop_complete [of cs] by auto

lemma descriptor_match_region:
  assumes "CHR ''('' \<notin> set pre" and "CHR '')'' \<notin> set ps"
  shows "descriptor_match (pre @ ''('' @ ps @ '')'' @ rest)
           = Some (ps, takeWhile (\<lambda>c. \<not> line_terminator c) rest)"
proof -
  have "dropWhile (\<lambda>c. c \<noteq> CHR ''('') (pre @ ''('' @ ps @ '')'' @ rest)
          = dropWhile (\<lambda>c. c \<noteq> CHR ''('') (''('' @ ps @ '')'' @ rest)"
    by (rule dropWhile_append2) (use assms(1) in auto)
  then have d: "dropWhile (\<lambda>c. c \<noteq> CHR ''('') (pre @ ''('' @ ps @ '')'' @ rest)
             = CHR ''('' # ps @ '')'' @ rest"
    by simp
  have "takeWhile (\<lambda>c. c \<noteq> CHR '')'') (ps @ '')'' @ rest)
          = ps @ takeWhile (\<lambda>c. c \<noteq> CHR '')'') ('')'' @ rest)"
    by (rule takeWhile_append2) (use assms(2) in auto)
  then have t: "takeWhile (\<lambda>c. c \<noteq> CHR '')'') (ps @ '')'' @ rest) = ps"
    by simp
  have "dropWhile (\<lambda>c. c \<noteq> CHR '')'') (ps @ '')'' @ rest)
          = dropWhile (\<lambda>c. c \<noteq> CHR '')'') ('')'' @ rest)"
    by (rule dropWhile_append2) (use assms(2) in auto)
  then have r: "dropWhile (\<lambda>c. c \<noteq> CHR '')'') (ps @ '')'' @ rest) = CHR '')'' # rest"
    by simp
  show ?thesis
    unfolding descriptor_match_def d using t r by simp
qed

lemma descriptor_match_SomeD:
  assumes "descriptor_match raw = Some (ps, rs)"
  shows "\<exists>pre rest. raw = pre @ ''('' @ ps @ '')'' @ rest
           \<and> CHR ''('' \<notin> set pre \<and> CHR '')'' \<notin> set ps
           \<and> rs = takeWhile (\<lambda>c. \<not> line_terminator c) rest"
proof -
  let ?P = "\<lambda>c. c \<noteq> CHR ''(''"
  let ?Q = "\<lambda>c. c \<noteq> CHR '')''"
  from assms obtain x after where d: "dropWhile ?P raw = x # after"
    by (auto simp: descriptor_match_def split: list.splits)
  from hd_dropWhile [of ?P raw] d have x: "x = CHR ''(''"
    by simp
  from assms d have mem: "CHR '')'' \<in> set after"
    and ps: "ps = takeWhile ?Q after"
    and rs: "rs = takeWhile (\<lambda>c. \<not> line_terminator c) (tl (dropWhile ?Q after))"
    by (auto simp: descriptor_match_def split: if_splits)
  from mem have ne: "dropWhile ?Q after \<noteq> []"
    by simp
  with hd_dropWhile [of ?Q after] have h: "hd (dropWhile ?Q after) = CHR '')''"
    by simp
  from ne h have split: "dropWhile ?Q after = CHR '')'' # tl (dropWhile ?Q after)"
    by (cases "dropWhile ?Q after") auto
  have "raw = takeWhile ?P raw @ dropWhile ?P raw"
    by simp
  also have "\<dots> = takeWhile ?P raw @ ''('' @ after"
    using d x by simp
  also have "after = takeWhile ?Q after @ dropWhile ?Q after"
    by simp
  also have "\<dots> = ps @ '')'' @ tl (dropWhile ?Q after)"
    using ps split by simp
  finally have raw: "raw = takeWhile ?P raw @ ''('' @ ps @ '')'' @ tl (dropWhile ?Q after)" .
  have p1: "CHR ''('' \<notin> set (takeWhile ?P raw)"
    using set_takeWhileD [of "CHR ''(''" ?P raw] by blast
  have p2: "CHR '')'' \<notin> set ps"
    unfolding ps using set_takeWhileD [of "CHR '')''" ?Q after] by blast
  from raw p1 p2 rs show ?thesis
    by blast
qed

lemma descriptor_match_None_iff:
  "descriptor_match raw = None \<longleftrightarrow> \<not> (\<exists>pre ps rest. raw = pre @ ''('' @ ps @ '')'' @ rest)"
proof
  assume n: "descriptor_match raw = None"
  show "\<not> (\<exists>pre ps rest. raw = pre @ ''('' @ ps @ '')'' @ rest)"
  proof
    assume "\<exists>pre ps rest. raw = pre @ ''('' @ ps @ '')'' @ rest"
    then obtain pre ps rest where raw: "raw = pre @ ''('' @ ps @ '')'' @ rest"
      by blast
    have "CHR ''('' \<in> set (pre @ ''('')"
      by simp
    from split_list_first [OF this] obtain a b where
      ab: "pre @ ''('' = a @ CHR ''('' # b" and a: "CHR ''('' \<notin> set a"
      by blast
    have "CHR '')'' \<in> set (b @ ps @ '')'')"
      by simp
    from split_list_first [OF this] obtain u v where
      uv: "b @ ps @ '')'' = u @ CHR '')'' # v" and u: "CHR '')'' \<notin> set u"
      by blast
    have "raw = (pre @ ''('') @ ps @ '')'' @ rest"
      using raw by simp
    also have "\<dots> = a @ ''('' @ (b @ ps @ '')'') @ rest"
      unfolding ab by simp
    also have "\<dots> = a @ ''('' @ u @ '')'' @ (v @ rest)"
      unfolding uv by simp
    finally have "raw = a @ ''('' @ u @ '')'' @ (v @ rest)" .
    with descriptor_match_region [OF a u, of "v @ rest"] n show False
      by simp
  qed
next
  assume "\<not> (\<exists>pre ps rest. raw = pre @ ''('' @ ps @ '')'' @ rest)"
  then show "descriptor_match raw = None"
    using descriptor_match_SomeD [of raw] by (cases "descriptor_match raw") auto
qed

text \<open>
  C8, as amended. When a \<open>)\<close> follows the first \<open>(\<close> of the descriptor and the parameter
  region between them is not a sequence of tokens, \<open>parse_descriptor\<close> fails with
  \<open>BadDescriptor\<close>. When no \<open>)\<close> follows a \<open>(\<close>, the regular expression does not match and
  \<open>parse_descriptor\<close> fails with a \<open>TypeError\<close> before any token is decoded. Whenever
  \<open>parse_descriptor\<close> returns, the \<open>param_types\<close> are tokens whose concatenation is the
  whole region between the first \<open>(\<close> and the first \<open>)\<close> after it: nothing is dropped.
\<close>

theorem malformed_descriptor_fails:
  "(raw = pre @ ''('' @ ps @ '')'' @ rest \<and> CHR ''('' \<notin> set pre \<and> CHR '')'' \<notin> set ps
      \<and> \<not> token_sequence ps
    \<longrightarrow> parse_descriptor this raw = Inl BadDescriptor)
   \<and> (\<not> (\<exists>pre' ps' rest'. raw = pre' @ ''('' @ ps' @ '')'' @ rest')
    \<longrightarrow> parse_descriptor this raw = Inl TypeError)
   \<and> (parse_descriptor this raw = Inr m
    \<longrightarrow> (\<exists>pre' rest'. raw = pre' @ ''('' @ concat (param_types m) @ '')'' @ rest'
            \<and> CHR ''('' \<notin> set pre' \<and> CHR '')'' \<notin> set (concat (param_types m)))
        \<and> (\<forall>t \<in> set (param_types m). token t))"
proof -
  have bad: "parse_descriptor this raw = Inl BadDescriptor"
    if h: "raw = pre @ ''('' @ ps @ '')'' @ rest \<and> CHR ''('' \<notin> set pre \<and> CHR '')'' \<notin> set ps
      \<and> \<not> token_sequence ps"
  proof -
    from h descriptor_match_region [of pre ps rest]
    have dm: "descriptor_match raw = Some (ps, takeWhile (\<lambda>c. \<not> line_terminator c) rest)"
      by simp
    show ?thesis
    proof (cases "param_loop ps")
      case (Inl e)
      with param_loop_error [OF Inl] dm show ?thesis
        by (simp add: parse_descriptor_def)
    next
      case (Inr ts)
      from param_loop_sound [OF Inr] token_sequence_concat [of ts] h show ?thesis
        by auto
    qed
  qed
  have nomatch: "parse_descriptor this raw = Inl TypeError"
    if "\<not> (\<exists>pre' ps' rest'. raw = pre' @ ''('' @ ps' @ '')'' @ rest')"
    using that descriptor_match_None_iff [of raw] by (simp add: parse_descriptor_def)
  have whole: "(\<exists>pre' rest'. raw = pre' @ ''('' @ concat (param_types m) @ '')'' @ rest'
            \<and> CHR ''('' \<notin> set pre' \<and> CHR '')'' \<notin> set (concat (param_types m)))
        \<and> (\<forall>t \<in> set (param_types m). token t)"
    if p: "parse_descriptor this raw = Inr m"
  proof -
    from p obtain ps rs ts where dm: "descriptor_match raw = Some (ps, rs)"
      and l: "param_loop ps = Inr ts" and m: "param_types m = ts"
      by (auto simp: parse_descriptor_def split: option.splits sum.splits)
    from descriptor_match_SomeD [OF dm] obtain pre' rest' where
      "raw = pre' @ ''('' @ ps @ '')'' @ rest'" "CHR ''('' \<notin> set pre'" "CHR '')'' \<notin> set ps"
      by blast
    with param_loop_sound [OF l] m show ?thesis
      by auto
  qed
  from bad nomatch whole show ?thesis
    by blast
qed


theorem malformed_descriptor_fails_witness:
  "\<not> token_sequence ''IX''
   \<and> parse_descriptor (new_Method ''LFoo;'') ''(IX)V'' = Inl BadDescriptor
   \<and> \<not> token_sequence ''ILfoo''
   \<and> parse_descriptor (new_Method ''LFoo;'') ''(ILfoo)V'' = Inl BadDescriptor
   \<and> \<not> token_sequence ''I[''
   \<and> parse_descriptor (new_Method ''LFoo;'') ''(I[)V'' = Inl BadDescriptor
   \<and> parse_descriptor (new_Method ''LFoo;'') ''I)V('' = Inl TypeError
   \<and> \<not> isl (parse_descriptor (new_Method ''LFoo;'') ''(I[J)V'')
   \<and> param_types (projr (parse_descriptor (new_Method ''LFoo;'') ''(I[J)V'')) = [''I'', ''[J'']"
proof -
  have na: "\<not> token_sequence ''IX''"
    by (rule param_loop_rejects [of _ BadDescriptor])
      (simp add: param_loop.simps primitive_chars_def)
  have nb: "\<not> token_sequence ''ILfoo''"
    by (rule param_loop_rejects [of _ BadDescriptor])
      (simp add: param_loop.simps primitive_chars_def)
  have nc: "\<not> token_sequence ''I[''"
    by (rule param_loop_rejects [of _ BadDescriptor])
      (simp add: param_loop.simps primitive_chars_def)
  have nd: "\<not> (\<exists>pre' ps' rest'. ''I)V('' = pre' @ ''('' @ ps' @ '')'' @ rest')"
    using descriptor_match_None_iff [of "''I)V(''"] by (simp add: descriptor_match_def)
  have ok: "parse_descriptor (new_Method ''LFoo;'') ''(I[J)V''
      = Inr (projr (parse_descriptor (new_Method ''LFoo;'') ''(I[J)V''))"
    by (simp add: parse_descriptor_def descriptor_match_def line_terminator_def
        param_loop.simps primitive_chars_def)
  from malformed_descriptor_fails [where raw = "''(IX)V''" and pre = "[]" and ps = "''IX''"
      and rest = "''V''" and this = "new_Method ''LFoo;''"]
    malformed_descriptor_fails [where raw = "''(ILfoo)V''" and pre = "[]" and ps = "''ILfoo''"
      and rest = "''V''" and this = "new_Method ''LFoo;''"]
    malformed_descriptor_fails [where raw = "''(I[)V''" and pre = "[]" and ps = "''I[''"
      and rest = "''V''" and this = "new_Method ''LFoo;''"]
    malformed_descriptor_fails [where raw = "''I)V(''" and this = "new_Method ''LFoo;''"]
    malformed_descriptor_fails [where raw = "''(I[J)V''" and this = "new_Method ''LFoo;''"
      and m = "projr (parse_descriptor (new_Method ''LFoo;'') ''(I[J)V'')"]
    na nb nc nd ok
  show ?thesis
    by (simp add: parse_descriptor_def descriptor_match_def line_terminator_def
        param_loop.simps primitive_chars_def)
qed

text \<open>
  C8 as stated fails: in \<open>(Lfoo\<close> the parameter token \<open>Lfoo\<close> is incomplete, but no \<open>)\<close>
  follows the \<open>(\<close>, so the regular expression of \<open>parse_descriptor\<close> does not match and
  reading the groups of the missing match raises a \<open>TypeError\<close>, not \<open>BadDescriptor\<close>.
\<close>

theorem missing_parenthesis_counterexample:
  "\<not> token_sequence ''Lfoo''
   \<and> parse_descriptor (new_Method ''LFoo;'') ''(Lfoo'' = Inl TypeError
   \<and> Inl TypeError \<noteq> (Inl BadDescriptor :: error + Method)"
proof -
  have "\<not> token_sequence ''Lfoo''"
    by (rule param_loop_rejects [of _ BadDescriptor])
      (simp add: param_loop.simps primitive_chars_def)
  then show ?thesis
    by (simp add: parse_descriptor_def descriptor_match_def)
qed

end
